theory Spec2Isabelle
  imports Complex_Main "HOL-Library.AList" "HOL-Library.Multiset"
begin

section \<open>Python values\<close>

text \<open>
  A Python \<open>str\<close> is a sequence of Unicode code points, so it is modelled as a list of
  code points (\<open>len\<close> is \<^const>\<open>length\<close>, a slice \<open>s[:k]\<close> is \<^const>\<open>take\<close>). ASCII
  literals of the source are written through \<open>ascii\<close>; the newline is code point 10 and the
  backtick is code point 96.
\<close>

type_synonym pystr = "nat list"

definition ascii :: "string \<Rightarrow> pystr" where
  "ascii s = map of_char s"

text \<open>
  Exceptions are values: the class that was raised and the text \<open>str(e)\<close>. Every class
  listed derives from Python's \<open>Exception\<close>, so an \<open>except Exception\<close> clause catches
  each of them. Asynchronous interrupts of the interpreter (\<open>KeyboardInterrupt\<close>,
  \<open>SystemExit\<close>) are not part of the model.
\<close>

datatype exn_class =
    TimeoutExpired | ValueError | IndexError | KeyError | EOFError
  | ZeroDivisionError | StatisticsError | OSError | UnicodeEncodeError | APIError

datatype exn = Exception (kind: exn_class) (str: pystr)

text \<open>\<open>sub in s\<close> on strings.\<close>

fun contains :: "pystr \<Rightarrow> pystr \<Rightarrow> bool" where
  "contains sub [] = (sub = [])"
| "contains sub (c # cs) = (take (length sub) (c # cs) = sub \<or> contains sub cs)"

text \<open>
  \<open>s.split(sep)\<close> for a non-empty separator: the pieces between the non-overlapping
  occurrences of \<open>sep\<close>, scanning from the left; the result is never empty.
\<close>

function split_from :: "pystr \<Rightarrow> pystr \<Rightarrow> pystr \<Rightarrow> pystr list" where
  "split_from sep cur [] = [cur]"
| "split_from sep cur (c # cs) =
     (if sep \<noteq> [] \<and> take (length sep) (c # cs) = sep
      then cur # split_from sep [] (drop (length sep) (c # cs))
      else split_from sep (cur @ [c]) cs)"
  by pat_completeness auto
termination
  by (relation "measure (\<lambda>(sep, cur, s). length s)") auto

definition py_split :: "pystr \<Rightarrow> pystr \<Rightarrow> pystr list" where
  "py_split s sep = split_from sep [] s"

text \<open>\<open>xs[i]\<close> for a non-negative index: out of range raises \<open>IndexError\<close>.\<close>

definition py_index :: "'a list \<Rightarrow> nat \<Rightarrow> exn + 'a" where
  "py_index xs i =
     (if i < length xs then Inr (xs ! i)
      else Inl (Exception IndexError (ascii ''list index out of range'')))"

text \<open>
  \<open>s.strip()\<close> removes leading and trailing white space; \<open>isspace\<close> lists the code points
  that CPython's \<open>str.isspace\<close> accepts.
\<close>

definition isspace :: "nat \<Rightarrow> bool" where
  "isspace c \<longleftrightarrow>
     (9 \<le> c \<and> c \<le> 13) \<or> (28 \<le> c \<and> c \<le> 32) \<or> c = 133 \<or> c = 160 \<or> c = 5760
     \<or> (8192 \<le> c \<and> c \<le> 8202) \<or> c = 8232 \<or> c = 8233 \<or> c = 8239 \<or> c = 8287
     \<or> c = 12288"

definition py_strip :: "pystr \<Rightarrow> pystr" where
  "py_strip s = rev (dropWhile isspace (rev (dropWhile isspace s)))"

section \<open>The condition registry (semantic\_conditioning\_test.py)\<close>

record Condition =
  name :: pystr
  prefix :: pystr
  suffix :: pystr

text \<open>The Greek and Japanese words of the prefixes, as their code points.\<close>

definition arete :: pystr where
  "arete = [0x1F00, 0x3C1, 0x3B5, 0x3C4, 0x3AE]"

definition shokunin :: pystr where
  "shokunin = [0x8077, 0x4EBA, 0x6C17, 0x8CEA]"

definition CONDITIONS :: "Condition list" where
  "CONDITIONS =
     [\<lparr>name = ascii ''control'', prefix = [], suffix = []\<rparr>,
      \<lparr>name = ascii ''common_english'',
       prefix = ascii ''Write high-quality, production-ready code.'' @ [10, 10],
       suffix = []\<rparr>,
      \<lparr>name = ascii ''greek_arete'',
       prefix = ascii ''Write code embodying '' @ arete @ ascii '' (excellence).'' @ [10, 10],
       suffix = []\<rparr>,
      \<lparr>name = ascii ''japanese_shokunin'',
       prefix = ascii ''Write code with '' @ shokunin @ ascii '' (craftsman spirit).'' @ [10, 10],
       suffix = []\<rparr>,
      \<lparr>name = ascii ''combined'',
       prefix = ascii ''Write code embodying '' @ arete @ ascii '' and '' @ shokunin
                @ ascii ''.'' @ [10, 10],
       suffix = []\<rparr>]"

definition SELECTED_PROBLEMS :: "pystr list" where
  "SELECTED_PROBLEMS =
     [ascii ''HumanEval/2'', ascii ''HumanEval/4'', ascii ''HumanEval/11'',
      ascii ''HumanEval/22'', ascii ''HumanEval/29'']"

section \<open>The completion generator\<close>

text \<open>
  The request handed to \<open>client.messages.create\<close>. The client is the remote service: a
  call either raises or returns the texts of the content blocks of the response.
\<close>

record request =
  model :: pystr
  max_tokens :: nat
  messages :: "(pystr \<times> pystr) list"
  temperature :: real

type_synonym client = "request \<Rightarrow> exn + pystr list"

definition full_prompt :: "pystr \<Rightarrow> Condition \<Rightarrow> pystr" where
  "full_prompt prompt condition =
     prefix condition @ ascii ''Complete the following Python function:'' @ [10, 10]
     @ prompt @ suffix condition"

definition fence :: pystr where
  "fence = [96, 96, 96]"

text \<open>
  The extraction of the code from the response text:
  \<open>content.split(marker)[1].split(fence)[0]\<close>.
\<close>

definition between :: "pystr \<Rightarrow> pystr \<Rightarrow> exn + pystr" where
  "between content marker =
     (case py_index (py_split content marker) 1 of
        Inl e \<Rightarrow> Inl e
      | Inr rest \<Rightarrow> py_index (py_split rest fence) 0)"

definition extract_code :: "pystr \<Rightarrow> exn + pystr" where
  "extract_code content =
     (if contains (fence @ ascii ''python'') content
      then between content (fence @ ascii ''python'')
      else if contains fence content then between content fence
      else Inr content)"

definition generate_completion :: "client \<Rightarrow> pystr \<Rightarrow> Condition \<Rightarrow> pystr \<Rightarrow> exn + pystr" where
  "generate_completion client prompt condition mdl =
     (case client \<lparr>model = mdl, max_tokens = 1024,
                   messages = [(ascii ''user'', full_prompt prompt condition)],
                   temperature = 7 / 10\<rparr> of
        Inl e \<Rightarrow> Inl e
      | Inr blocks \<Rightarrow>
          (case py_index blocks 0 of
             Inl e \<Rightarrow> Inl e
           | Inr content \<Rightarrow>
               (case extract_code content of
                  Inl e \<Rightarrow> Inl e
                | Inr code \<Rightarrow> Inr (py_strip code))))"

section \<open>The correctness checker\<close>

text \<open>
  The operating system as \<open>check_correctness\<close> uses it. \<open>write_temp\<close> is the \<open>with\<close> block
  (create the temporary file, write and flush the program text): it raises or gives the
  path. \<open>run_python\<close> is \<open>subprocess.run(["python3", path], timeout = t)\<close> on the file
  that holds the given text: it raises (\<open>TimeoutExpired\<close> or anything else) or gives the
  return code and the captured standard error. \<open>unlink\<close> is \<open>os.unlink\<close>.
\<close>

record opsys =
  write_temp :: "pystr \<Rightarrow> exn + pystr"
  run_python :: "pystr \<Rightarrow> pystr \<Rightarrow> real \<Rightarrow> exn + (int \<times> pystr)"
  unlink :: "pystr \<Rightarrow> exn option"

definition full_code :: "pystr \<Rightarrow> pystr \<Rightarrow> pystr \<Rightarrow> pystr \<Rightarrow> pystr" where
  "full_code prompt completion test entry_point =
     prompt @ completion @ [10, 10] @ test @ [10, 10]
     @ ascii ''check('' @ entry_point @ ascii '')''"

text \<open>The \<open>try\<close> block with its two \<open>except\<close> clauses, in the order of the source.\<close>

definition verdict :: "exn + (int \<times> pystr) \<Rightarrow> bool \<times> pystr option" where
  "verdict outcome =
     (case outcome of
        Inr (returncode, stderr) \<Rightarrow>
          (if returncode = 0 then (True, None) else (False, Some (take 500 stderr)))
      | Inl e \<Rightarrow>
          (if kind e = TimeoutExpired then (False, Some (ascii ''Timeout''))
           else (False, Some (take 500 (str e)))))"

text \<open>
  The temporary file is written before the \<open>try\<close> statement, so an exception there
  leaves the function; an exception of the \<open>finally\<close> clause replaces the value that
  was about to be returned.
\<close>

definition check_correctness ::
  "opsys \<Rightarrow> pystr \<Rightarrow> pystr \<Rightarrow> pystr \<Rightarrow> pystr \<Rightarrow> real \<Rightarrow> exn + (bool \<times> pystr option)" where
  "check_correctness os prompt completion test entry_point timeout =
     (case write_temp os (full_code prompt completion test entry_point) of
        Inl e \<Rightarrow> Inl e
      | Inr temp_path \<Rightarrow>
          (let result = verdict (run_python os temp_path
                                   (full_code prompt completion test entry_point) timeout)
           in case unlink os temp_path of
                Some e \<Rightarrow> Inl e
              | None \<Rightarrow> Inr result))"

section \<open>The trial orchestrator\<close>

text \<open>The dictionary appended to \<open>blind_outputs\<close>.\<close>

record blind_entry =
  blind_id :: pystr
  problem_id :: pystr
  prompt :: pystr
  completion :: pystr
  passed :: bool

record TrialResult =
  problem_id :: pystr
  condition :: pystr
  completion :: pystr
  passed :: bool
  error :: "pystr option"
  timestamp :: pystr
  blind_id :: pystr

text \<open>A record of the benchmark data set, and the dictionary kept for a problem.\<close>

record item =
  task_id :: pystr
  prompt :: pystr
  test :: pystr
  entry_point :: pystr
  canonical_solution :: pystr

record problem =
  prompt :: pystr
  test :: pystr
  entry_point :: pystr
  canonical_solution :: pystr

text \<open>
  A Python \<open>dict\<close> keeps its keys in insertion order, and an assignment to a key that is
  present replaces the value in place: an association list under \<^const>\<open>AList.update\<close>.
\<close>

type_synonym ('k, 'v) dict = "('k \<times> 'v) list"

definition load_humaneval_problems :: "item list \<Rightarrow> pystr list \<Rightarrow> (pystr, problem) dict" where
  "load_humaneval_problems ds problem_ids =
     foldl (\<lambda>problems it.
              if task_id it \<in> set problem_ids
              then AList.update (task_id it)
                     \<lparr>prompt = item.prompt it, test = item.test it,
                      entry_point = item.entry_point it,
                      canonical_solution = item.canonical_solution it\<rparr> problems
              else problems) [] ds"

text \<open>
  \<open>random.shuffle\<close> (CPython): for \<open>i\<close> from \<open>len(x) - 1\<close> down to \<open>1\<close>, draw
  \<open>j = randbelow(i + 1)\<close> and swap \<open>x[i]\<close> and \<open>x[j]\<close>. The random source is the function
  \<open>rnd\<close>, read at \<open>i\<close> and reduced to the range of \<open>randbelow\<close>.
\<close>

fun shuffle_loop :: "(nat \<Rightarrow> nat) \<Rightarrow> nat \<Rightarrow> 'a list \<Rightarrow> 'a list" where
  "shuffle_loop rnd 0 x = x"
| "shuffle_loop rnd (Suc k) x =
     (let i = Suc k; j = rnd i mod (i + 1)
      in shuffle_loop rnd k (x[i := x ! j, j := x ! i]))"

definition shuffle :: "(nat \<Rightarrow> nat) \<Rightarrow> 'a list \<Rightarrow> 'a list" where
  "shuffle rnd x = shuffle_loop rnd (length x - 1) x"

text \<open>
  What one trial meets: the generation service, the operating system of the checker, the two
  readings of the clock and the random number that enter the blind id and the timestamp.
\<close>

record trial_world =
  service :: client
  checker_os :: opsys
  clock_id :: pystr
  random_id :: pystr
  clock_stamp :: pystr

text \<open>
  What one run of \<open>run_experiment\<close> meets: the fetched data set, the random draws of the
  two shuffles, the world of the \<open>i\<close>-th executed trial, and the hash function
  (\<open>sha256(...).hexdigest()\<close> of the encoded text).
\<close>

record world =
  dataset :: "item list"
  shuffle_trials :: "nat \<Rightarrow> nat"
  trial_env :: "nat \<Rightarrow> trial_world"
  shuffle_blind :: "nat \<Rightarrow> nat"
  sha256_hex :: "pystr \<Rightarrow> pystr"

text \<open>The list comprehension that builds the trials; \<open>range(n)\<close> is empty for \<open>n \<le> 0\<close>.\<close>

definition all_trials :: "(pystr, problem) dict \<Rightarrow> int \<Rightarrow> (pystr \<times> Condition) list" where
  "all_trials problems n =
     [(pid, c). pid \<leftarrow> map fst problems, c \<leftarrow> CONDITIONS, k \<leftarrow> [0..<nat n]]"

text \<open>
  The body of the \<open>try\<close> statement of a trial and its \<open>except Exception\<close> clause: the
  completion, the verdict and the error text that the trial records.
\<close>

definition attempt ::
  "trial_world \<Rightarrow> problem \<Rightarrow> Condition \<Rightarrow> pystr \<Rightarrow> pystr \<times> bool \<times> pystr option" where
  "attempt tw p c mdl =
     (case generate_completion (service tw) (problem.prompt p) c mdl of
        Inl e \<Rightarrow> ([], False, Some (ascii ''Generation error: '' @ str e))
      | Inr text \<Rightarrow>
          (case check_correctness (checker_os tw) (problem.prompt p) text
                  (problem.test p) (problem.entry_point p) 5 of
             Inl e \<Rightarrow> ([], False, Some (ascii ''Generation error: '' @ str e))
           | Inr (ok, err) \<Rightarrow> (text, ok, err)))"

definition new_blind_id :: "world \<Rightarrow> trial_world \<Rightarrow> pystr" where
  "new_blind_id w tw = take 12 (sha256_hex w (clock_id tw @ random_id tw))"

text \<open>
  The body of the loop for the \<open>i\<close>-th executed trial, once \<open>problems[problem_id]\<close> is
  read: the \<open>TrialResult\<close> and the dictionary for the blind evaluation.
\<close>

definition run_trial ::
  "world \<Rightarrow> nat \<Rightarrow> pystr \<Rightarrow> pystr \<Rightarrow> problem \<Rightarrow> Condition \<Rightarrow> TrialResult \<times> blind_entry" where
  "run_trial w i mdl pid p c =
     (case attempt (trial_env w i) p c mdl of
        (text, ok, err) \<Rightarrow>
          (\<lparr>problem_id = pid, condition = name c, completion = text, passed = ok,
            error = err, timestamp = clock_stamp (trial_env w i),
            blind_id = new_blind_id w (trial_env w i)\<rparr>,
           \<lparr>blind_entry.blind_id = new_blind_id w (trial_env w i),
            blind_entry.problem_id = pid,
            blind_entry.prompt = problem.prompt p,
            blind_entry.completion = text,
            blind_entry.passed = ok\<rparr>))"

text \<open>
  The loop over the shuffled trials, from the \<open>i\<close>-th on, appending to \<open>results\<close> and
  \<open>blind_outputs\<close>. \<open>problems[problem_id]\<close> stands outside the \<open>try\<close> statement: a missing
  key would end the run with \<open>KeyError\<close>.
\<close>

fun run_trials ::
  "world \<Rightarrow> (pystr, problem) dict \<Rightarrow> pystr \<Rightarrow> nat \<Rightarrow> (pystr \<times> Condition) list
   \<Rightarrow> TrialResult list \<times> blind_entry list \<Rightarrow> exn + (TrialResult list \<times> blind_entry list)" where
  "run_trials w problems mdl i [] acc = Inr acc"
| "run_trials w problems mdl i ((pid, c) # trials) (results, blind_outputs) =
     (case map_of problems pid of
        None \<Rightarrow> Inl (Exception KeyError pid)
      | Some p \<Rightarrow>
          (case run_trial w i mdl pid p c of
             (result, blind) \<Rightarrow>
               run_trials w problems mdl (Suc i) trials
                 (results @ [result], blind_outputs @ [blind])))"

text \<open>
  What the loop appends for the trial \<open>t\<close> executed at position \<open>i\<close>, when the problem of
  \<open>t\<close> is a key of \<open>problems\<close>.
\<close>

definition outcome_at ::
  "world \<Rightarrow> (pystr, problem) dict \<Rightarrow> pystr \<Rightarrow> nat \<Rightarrow> pystr \<times> Condition
   \<Rightarrow> TrialResult \<times> blind_entry" where
  "outcome_at w problems mdl i t =
     run_trial w i mdl (fst t) (the (map_of problems (fst t))) (snd t)"

text \<open>The dictionary comprehension of the key file.\<close>

definition key_mapping :: "TrialResult list \<Rightarrow> (pystr, pystr) dict" where
  "key_mapping results =
     foldl (\<lambda>m r. AList.update (blind_id r) (condition r) m) [] results"

text \<open>
  A printed pass rate: \<open>passed / total if total > 0 else 0\<close>. The quotient of two
  integers is taken exactly.
\<close>

definition rate :: "nat \<Rightarrow> nat \<Rightarrow> real" where
  "rate n_passed n_total = (if n_total > 0 then real n_passed / real n_total else 0)"

definition count_passed :: "TrialResult list \<Rightarrow> nat" where
  "count_passed rs = length (filter passed rs)"

definition pass_row :: "pystr \<Rightarrow> TrialResult list \<Rightarrow> pystr \<times> nat \<times> nat \<times> real" where
  "pass_row label rs = (label, count_passed rs, length rs, rate (count_passed rs) (length rs))"

record summary =
  total_trials :: nat
  overall_pass_rate :: real

text \<open>The \<open>return\<close> statement: the quotient is not guarded.\<close>

definition summarize :: "TrialResult list \<Rightarrow> exn + (TrialResult list \<times> summary)" where
  "summarize results =
     (if length results = 0
      then Inl (Exception ZeroDivisionError (ascii ''division by zero''))
      else Inr (results,
                \<lparr>total_trials = length results,
                 overall_pass_rate = real (count_passed results) / real (length results)\<rparr>))"

text \<open>
  A finished run: the trials in the order of their execution, the three files as written,
  the two printed tables, and the value returned or the exception raised by the \<open>return\<close>
  statement. Creating the client and the output directory, fetching the data set and
  writing the three files are taken to succeed.
\<close>

record run_output =
  executed :: "(pystr \<times> Condition) list"
  results_file :: "TrialResult list"
  blind_eval_file :: "blind_entry list"
  key_file :: "(pystr, pystr) dict"
  by_condition_table :: "(pystr \<times> nat \<times> nat \<times> real) list"
  by_problem_table :: "(pystr \<times> nat \<times> nat \<times> real) list"
  returned :: "exn + (TrialResult list \<times> summary)"

definition run_experiment :: "world \<Rightarrow> int \<Rightarrow> pystr \<Rightarrow> exn + run_output" where
  "run_experiment w n_trials_per_condition mdl =
     (let problems = load_humaneval_problems (dataset w) SELECTED_PROBLEMS;
          trials = shuffle (shuffle_trials w) (all_trials problems n_trials_per_condition)
      in case run_trials w problems mdl 0 trials ([], []) of
           Inl e \<Rightarrow> Inl e
         | Inr (results, blind_outputs) \<Rightarrow>
             Inr \<lparr>executed = trials,
                  results_file = results,
                  blind_eval_file = shuffle (shuffle_blind w) blind_outputs,
                  key_file = key_mapping results,
                  by_condition_table =
                    map (\<lambda>c. pass_row (name c) (filter (\<lambda>r. condition r = name c) results))
                      CONDITIONS,
                  by_problem_table =
                    map (\<lambda>pid. pass_row pid
                                  (filter (\<lambda>r. problem_id r = pid) results))
                      (map fst problems),
                  returned = summarize results\<rparr>)"

text \<open>
  The problems, the executed trials and the two lists that a run builds, named for the
  statements below.
\<close>

definition problems_of :: "world \<Rightarrow> (pystr, problem) dict" where
  "problems_of w = load_humaneval_problems (dataset w) SELECTED_PROBLEMS"

definition trials_of :: "world \<Rightarrow> int \<Rightarrow> (pystr \<times> Condition) list" where
  "trials_of w n = shuffle (shuffle_trials w) (all_trials (problems_of w) n)"

definition results_of :: "world \<Rightarrow> int \<Rightarrow> pystr \<Rightarrow> TrialResult list" where
  "results_of w n mdl =
     map (\<lambda>(k, t). fst (outcome_at w (problems_of w) mdl k t)) (enumerate 0 (trials_of w n))"

definition blind_of :: "world \<Rightarrow> int \<Rightarrow> pystr \<Rightarrow> blind_entry list" where
  "blind_of w n mdl =
     map (\<lambda>(k, t). snd (outcome_at w (problems_of w) mdl k t)) (enumerate 0 (trials_of w n))"

text \<open>
  The blind-eval file and the key file as inverses of the redaction. \<open>labelled\<close> is a
  result restricted to the fields it shares with a blind entry that has its condition
  attached again (\<open>reattach\<close>). The two files invert the redaction when the blind ids of
  the blind-eval file are those of the results, every blind id of the blind-eval file is a
  key of the key file, and the entry with the condition of the key attached is a result
  restricted to these fields.
\<close>

definition labelled :: "TrialResult \<Rightarrow> pystr \<times> pystr \<times> pystr \<times> bool \<times> pystr" where
  "labelled r = (blind_id r, problem_id r, completion r, passed r, condition r)"

definition reattach :: "blind_entry \<Rightarrow> pystr \<Rightarrow> pystr \<times> pystr \<times> pystr \<times> bool \<times> pystr" where
  "reattach b c =
     (blind_entry.blind_id b, blind_entry.problem_id b, blind_entry.completion b,
      blind_entry.passed b, c)"

definition blind_key_inverse ::
  "TrialResult list \<Rightarrow> blind_entry list \<Rightarrow> (pystr, pystr) dict \<Rightarrow> bool" where
  "blind_key_inverse results blind key \<longleftrightarrow>
     set (map blind_entry.blind_id blind) = set (map blind_id results)
     \<and> (\<forall>b\<in>set blind.
           case map_of key (blind_entry.blind_id b) of
             None \<Rightarrow> False
           | Some c \<Rightarrow> (\<exists>r\<in>set results. labelled r = reattach b c))"

section \<open>The blind scoring session (evaluate\_quality.py)\<close>

text \<open>The dictionary stored under a blind id in the score store.\<close>

record score_data =
  edge_cases :: int
  error_handling :: int
  idiomaticity :: int
  documentation :: int
  ship_it :: int
  total :: int

text \<open>
  Two built-in functions of Python are parameters of the model: \<open>str.lower\<close> and the
  conversion \<open>int(s)\<close>, which raises \<open>ValueError\<close> (here \<open>None\<close>) on a text that is not an
  integer literal. The properties proved below hold for every such pair of functions.
\<close>

record builtins =
  str_lower :: "pystr \<Rightarrow> pystr"
  int_parse :: "pystr \<Rightarrow> int option"

text \<open>What the session prints and asks, in order.\<close>

datatype event =
    Loaded nat
  | Already_scored pystr
  | Sample blind_entry
  | Prompt pystr
  | Progress_saved nat
  | Skipped
  | Invalid_format
  | Need_exactly_5
  | Scores_must_be_1_5
  | Recorded "int list" int
  | Evaluation_complete

text \<open>
  The three ways the \<open>while True\<close> loop of one sample ends: \<open>input\<close> finds the input
  exhausted and raises \<open>EOFError\<close>; the operator quits; the loop is left by \<open>break\<close>, with
  the scores and the input lines that remain.
\<close>

datatype asked =
    Stop_EOF
  | Stop_quit "(pystr, score_data) dict"
  | Continue "(pystr, score_data) dict" "pystr list"

text \<open>
  \<open>[int(x.strip()) for x in response.split(',')]\<close>: the first token that \<open>int\<close> refuses
  raises \<open>ValueError\<close> for the whole comprehension.
\<close>

definition parse_parts :: "builtins \<Rightarrow> pystr \<Rightarrow> int list option" where
  "parse_parts lib response =
     those (map (\<lambda>x. int_parse lib (py_strip x)) (py_split response (ascii '','')))"

definition in_range :: "int \<Rightarrow> bool" where
  "in_range x \<longleftrightarrow> 1 \<le> x \<and> x \<le> 5"

definition make_score :: "int list \<Rightarrow> score_data" where
  "make_score parts =
     \<lparr>edge_cases = parts ! 0, error_handling = parts ! 1, idiomaticity = parts ! 2,
      documentation = parts ! 3, ship_it = parts ! 4, total = sum_list parts\<rparr>"

fun ask ::
  "builtins \<Rightarrow> pystr \<Rightarrow> (pystr, score_data) dict \<Rightarrow> pystr list \<Rightarrow> event list
   \<Rightarrow> event list \<times> asked" where
  "ask lib bid scores [] out = (out @ [Prompt bid], Stop_EOF)"
| "ask lib bid scores (line # inputs) out =
     (let response = str_lower lib (py_strip line)
      in if response = ascii ''q''
         then (out @ [Prompt bid, Progress_saved (length scores)], Stop_quit scores)
         else if response = ascii ''s''
         then (out @ [Prompt bid, Skipped], Continue scores inputs)
         else (case parse_parts lib response of
                 None \<Rightarrow> ask lib bid scores inputs (out @ [Prompt bid, Invalid_format])
               | Some parts \<Rightarrow>
                   if length parts \<noteq> 5
                   then ask lib bid scores inputs (out @ [Prompt bid, Need_exactly_5])
                   else if \<not> list_all in_range parts
                   then ask lib bid scores inputs (out @ [Prompt bid, Scores_must_be_1_5])
                   else (out @ [Prompt bid, Recorded parts (sum_list parts)],
                         Continue (AList.update bid (make_score parts) scores) inputs)))"

text \<open>
  The result of a session: the value returned or the exception that ended it, the score
  file if the session wrote it, and what was printed and asked.
\<close>

record session =
  returned_scores :: "exn + (pystr, score_data) dict"
  written :: "(pystr, score_data) dict option"
  transcript :: "event list"

text \<open>The \<open>for\<close> loop over the blind data; \<open>blind_id in scores\<close> is a key lookup.\<close>

fun score_loop ::
  "builtins \<Rightarrow> blind_entry list \<Rightarrow> (pystr, score_data) dict \<Rightarrow> pystr list \<Rightarrow> event list
   \<Rightarrow> session" where
  "score_loop lib [] scores inputs out =
     \<lparr>returned_scores = Inr scores, written = Some scores,
      transcript = out @ [Evaluation_complete]\<rparr>"
| "score_loop lib (it # data) scores inputs out =
     (if map_of scores (blind_entry.blind_id it) \<noteq> None
      then score_loop lib data scores inputs (out @ [Already_scored (blind_entry.blind_id it)])
      else (case ask lib (blind_entry.blind_id it) scores inputs (out @ [Sample it]) of
              (out', Stop_EOF) \<Rightarrow>
                \<lparr>returned_scores = Inl (Exception EOFError (ascii ''EOF when reading a line'')),
                 written = None, transcript = out'\<rparr>
            | (out', Stop_quit scores') \<Rightarrow>
                \<lparr>returned_scores = Inr scores', written = Some scores', transcript = out'\<rparr>
            | (out', Continue scores' inputs') \<Rightarrow> score_loop lib data scores' inputs' out'))"

text \<open>
  \<open>existing\<close> is the content of the output file when it exists; \<open>inputs\<close> are the lines
  that the operator types.
\<close>

definition evaluate_interactively ::
  "builtins \<Rightarrow> blind_entry list \<Rightarrow> (pystr, score_data) dict option \<Rightarrow> pystr list \<Rightarrow> session" where
  "evaluate_interactively lib data existing inputs =
     (case existing of
        None \<Rightarrow> score_loop lib data [] inputs []
      | Some scores \<Rightarrow> score_loop lib data scores inputs [Loaded (length scores)])"

text \<open>
  A score record is valid when its five dimension values lie in the range from 1 to 5
  and its total is their sum.
\<close>

definition valid_score :: "score_data \<Rightarrow> bool" where
  "valid_score s \<longleftrightarrow>
     in_range (edge_cases s) \<and> in_range (error_handling s) \<and> in_range (idiomaticity s)
     \<and> in_range (documentation s) \<and> in_range (ship_it s)
     \<and> total s = edge_cases s + error_handling s + idiomaticity s + documentation s + ship_it s"

text \<open>
  A score store extends another one when it keeps every entry of that store as it is
  and every further entry of it is valid.
\<close>

definition extends :: "(pystr, score_data) dict \<Rightarrow> (pystr, score_data) dict \<Rightarrow> bool" where
  "extends scores0 scores \<longleftrightarrow>
     (\<forall>bid sd. map_of scores0 bid = Some sd \<longrightarrow> map_of scores bid = Some sd)
     \<and> (\<forall>bid sd. map_of scores bid = Some sd \<longrightarrow> map_of scores0 bid = Some sd \<or> valid_score sd)"

text \<open>An event shows or asks for the sample with blind id \<open>b\<close>.\<close>

fun presents :: "event \<Rightarrow> pystr \<Rightarrow> bool" where
  "presents (Sample it) b = (blind_entry.blind_id it = b)"
| "presents (Prompt b') b = (b' = b)"
| "presents e b = False"

text \<open>
  An instance of the built-in functions on ASCII text, for running the session on
  concrete input: \<open>lower\<close> on the letters A to Z, and \<open>int\<close> on an optional sign followed
  by decimal digits.
\<close>

definition ascii_lower :: "pystr \<Rightarrow> pystr" where
  "ascii_lower s = map (\<lambda>c. if 65 \<le> c \<and> c \<le> 90 then c + 32 else c) s"

definition digits_value :: "pystr \<Rightarrow> int option" where
  "digits_value s =
     (if s \<noteq> [] \<and> list_all (\<lambda>c. 48 \<le> c \<and> c \<le> 57) s
      then Some (foldl (\<lambda>v c. 10 * v + int (c - 48)) 0 s)
      else None)"

definition ascii_int :: "pystr \<Rightarrow> int option" where
  "ascii_int s =
     (case py_strip s of
        [] \<Rightarrow> None
      | c # cs \<Rightarrow>
          if c = 45 then map_option uminus (digits_value cs)
          else if c = 43 then digits_value cs
          else digits_value (c # cs))"

definition ascii_builtins :: builtins where
  "ascii_builtins = \<lparr>str_lower = ascii_lower, int_parse = ascii_int\<rparr>"

section \<open>The results analyzer (reveal\_results.py)\<close>

text \<open>
  The totals are integers; means, deviations and quotients are computed in exact real
  arithmetic, which stands for Python's binary floating point. \<open>statistics.mean\<close> raises
  \<open>StatisticsError\<close> on an empty list and \<open>statistics.stdev\<close> on fewer than two values.
\<close>

definition py_mean :: "int list \<Rightarrow> exn + real" where
  "py_mean xs =
     (if xs = [] then Inl (Exception StatisticsError (ascii ''mean requires at least one data point''))
      else Inr (real_of_int (sum_list xs) / real (length xs)))"

definition py_stdev :: "int list \<Rightarrow> exn + real" where
  "py_stdev xs =
     (if length xs < 2
      then Inl (Exception StatisticsError (ascii ''stdev requires at least two data points''))
      else Inr (sqrt ((\<Sum>x\<leftarrow>xs. (real_of_int x - real_of_int (sum_list xs) / real (length xs))\<^sup>2)
                      / real (length xs - 1))))"

text \<open>\<open>statistics.stdev(totals) if len(totals) > 1 else 0\<close>.\<close>

definition sample_std :: "int list \<Rightarrow> exn + real" where
  "sample_std totals = (if length totals > 1 then py_stdev totals else Inr 0)"

text \<open>\<open>((control_std**2 + std**2) / 2) ** 0.5 if control_std and std else 1\<close>.\<close>

definition pooled_std :: "real \<Rightarrow> real \<Rightarrow> real" where
  "pooled_std control_std std =
     (if control_std \<noteq> 0 \<and> std \<noteq> 0 then sqrt ((control_std\<^sup>2 + std\<^sup>2) / 2) else 1)"

text \<open>\<open>by_condition[condition].append(score_data)\<close> on a \<open>defaultdict(list)\<close>.\<close>

definition append_to :: "('k, 'v list) dict \<Rightarrow> 'k \<Rightarrow> 'v \<Rightarrow> ('k, 'v list) dict" where
  "append_to d k v = AList.update k ((case map_of d k of None \<Rightarrow> [] | Some vs \<Rightarrow> vs) @ [v]) d"

text \<open>
  The grouping loop over \<open>scores.items()\<close>; \<open>if condition\<close> drops a blind id that the key
  does not hold, and one that it maps to the empty text. (The loop also fills
  \<open>by_problem\<close>, which the function never reads.)
\<close>

definition group_by_condition ::
  "(pystr, score_data) dict \<Rightarrow> (pystr, pystr) dict \<Rightarrow> (pystr, score_data list) dict" where
  "group_by_condition scores key =
     foldl (\<lambda>by_condition (bid, sd).
              case map_of key bid of
                None \<Rightarrow> by_condition
              | Some cnd \<Rightarrow> if cnd \<noteq> [] then append_to by_condition cnd sd else by_condition)
       [] scores"

record comparison =
  cond :: pystr
  mean_total :: real
  std_total :: real
  diff :: real
  pct_diff :: real
  effect :: real

text \<open>The body of the loop of the statistical comparison, for one condition.\<close>

definition compare_row :: "real \<Rightarrow> real \<Rightarrow> pystr \<Rightarrow> int list \<Rightarrow> exn + comparison" where
  "compare_row control_mean control_std cnd totals =
     (case py_mean totals of
        Inl e \<Rightarrow> Inl e
      | Inr mean \<Rightarrow>
          (case sample_std totals of
             Inl e \<Rightarrow> Inl e
           | Inr std \<Rightarrow>
               Inr \<lparr>cond = cnd, mean_total = mean, std_total = std,
                    diff = mean - control_mean,
                    pct_diff = (if control_mean \<noteq> 0
                                then (mean - control_mean) / control_mean * 100 else 0),
                    effect = (if pooled_std control_std std \<noteq> 0
                              then (mean - control_mean) / pooled_std control_std std
                              else 0)\<rparr>))"

fun compare_all ::
  "(pystr, score_data list) dict \<Rightarrow> real \<Rightarrow> real \<Rightarrow> pystr list \<Rightarrow> exn + comparison list" where
  "compare_all by_condition control_mean control_std [] = Inr []"
| "compare_all by_condition control_mean control_std (cnd # rest) =
     (case map_of by_condition cnd of
        None \<Rightarrow> compare_all by_condition control_mean control_std rest
      | Some scores_list \<Rightarrow>
          (case compare_row control_mean control_std cnd (map total scores_list) of
             Inl e \<Rightarrow> Inl e
           | Inr row \<Rightarrow>
               (case compare_all by_condition control_mean control_std rest of
                  Inl e \<Rightarrow> Inl e
                | Inr rows \<Rightarrow> Inr (row # rows))))"

definition treatments :: "pystr list" where
  "treatments =
     [ascii ''common_english'', ascii ''greek_arete'', ascii ''japanese_shokunin'',
      ascii ''combined'']"

text \<open>
  The section ``statistical comparison (vs control)'' of \<open>analyze\<close>: \<open>None\<close> when no
  score belongs to the control condition, else the baseline (mean, deviation, count) and
  one row for each other condition that has scores. The tables printed before and after
  it are not modelled.
\<close>

definition analyze ::
  "TrialResult list \<Rightarrow> (pystr, score_data) dict \<Rightarrow> (pystr, pystr) dict
   \<Rightarrow> exn + ((real \<times> real \<times> nat) \<times> comparison list) option" where
  "analyze results scores key =
     (let by_condition = group_by_condition scores key
      in case map_of by_condition (ascii ''control'') of
           None \<Rightarrow> Inr None
         | Some control \<Rightarrow>
             (case py_mean (map total control) of
                Inl e \<Rightarrow> Inl e
              | Inr control_mean \<Rightarrow>
                  (case sample_std (map total control) of
                     Inl e \<Rightarrow> Inl e
                   | Inr control_std \<Rightarrow>
                       (case compare_all by_condition control_mean control_std treatments of
                          Inl e \<Rightarrow> Inl e
                        | Inr rows \<Rightarrow>
                            Inr (Some ((control_mean, control_std, length control), rows))))))"

section \<open>Concrete environments\<close>

text \<open>
  Environments on which the functions above are run. \<open>echo\<close> is a service that fails and
  reports the user message it was sent; \<open>reply text\<close> answers with one content block
  that holds \<open>text\<close>.
\<close>

definition echo :: client where
  "echo r = Inl (Exception APIError (concat (map snd (messages r))))"

definition reply :: "pystr \<Rightarrow> client" where
  "reply text r = Inr [text]"

text \<open>
  An operating system whose temporary file is encoded strictly (a surrogate code point cannot be
  encoded, as in UTF-8), whose interpreter run has the given outcome, and whose
  \<open>unlink\<close> succeeds.
\<close>

definition strict_os :: "exn + (int \<times> pystr) \<Rightarrow> opsys" where
  "strict_os outcome =
     \<lparr>write_temp = (\<lambda>code. if list_ex (\<lambda>c. 55296 \<le> c \<and> c \<le> 57343) code
                            then Inl (Exception UnicodeEncodeError (ascii ''surrogates not allowed''))
                            else Inr (ascii ''/tmp/tmp0.py'')),
      run_python = (\<lambda>path code t. outcome),
      unlink = (\<lambda>path. None)\<rparr>"

text \<open>
  A run over a data set that holds one selected problem and one other. Of every three
  trials, the first finds the service failing, the second gets the completion \<open>pass\<close>,
  and the third gets a completion that is one lone surrogate, which the checker cannot
  write to its temporary file. The hash function and the texts of the clock and of the
  random number of the \<open>i\<close>-th trial are parameters; \<open>digits\<close> gives the \<open>i\<close>-th trial the
  character with code \<open>48 + i\<close> as its clock text.
\<close>

definition demo_dataset :: "item list" where
  "demo_dataset =
     [\<lparr>task_id = ascii ''HumanEval/2'', prompt = ascii ''def f():'', test = ascii ''t'',
       entry_point = ascii ''f'', canonical_solution = ascii ''s''\<rparr>,
      \<lparr>task_id = ascii ''HumanEval/3'', prompt = ascii ''def g():'', test = ascii ''t'',
       entry_point = ascii ''g'', canonical_solution = ascii ''s''\<rparr>]"

definition demo_problem :: problem where
  "demo_problem =
     \<lparr>prompt = ascii ''def f():'', test = ascii ''t'', entry_point = ascii ''f'',
      canonical_solution = ascii ''s''\<rparr>"

definition demo_service :: "nat \<Rightarrow> client" where
  "demo_service i =
     (if i mod 3 = 0 then echo else if i mod 3 = 1 then reply (ascii ''pass'')
      else reply [55296])"

definition demo_world :: "(pystr \<Rightarrow> pystr) \<Rightarrow> (nat \<Rightarrow> pystr \<times> pystr) \<Rightarrow> world" where
  "demo_world h ids =
     \<lparr>dataset = demo_dataset,
      shuffle_trials = (\<lambda>i. 0),
      trial_env = (\<lambda>i. \<lparr>service = demo_service i,
                        checker_os = strict_os (Inr (0, [])),
                        clock_id = fst (ids i), random_id = snd (ids i),
                        clock_stamp = fst (ids i)\<rparr>),
      shuffle_blind = (\<lambda>i. 1),
      sha256_hex = h\<rparr>"

definition digits :: "nat \<Rightarrow> pystr \<times> pystr" where
  "digits i = ([48 + i], ascii ''0.5'')"

text \<open>
  Five readings of the clock and of the random number generator, and the SHA-256 digests
  of the five texts they form. The digests of the first two texts agree in their first
  twelve characters.
\<close>

definition observed :: "nat \<Rightarrow> pystr \<times> pystr" where
  "observed i =
     (if i = 0 then (ascii ''2025-06-01T14:36:28.265546'', ascii ''0.9087955086892799'')
      else if i = 1 then (ascii ''2025-06-01T14:46:34.980375'', ascii ''0.9899721258764284'')
      else if i = 2 then (ascii ''2025-06-01T14:46:41.507112'', ascii ''0.13436424411240122'')
      else if i = 3 then (ascii ''2025-06-01T14:46:49.118930'', ascii ''0.8474337369372327'')
      else (ascii ''2025-06-01T14:46:55.730264'', ascii ''0.763774618976614''))"

definition sha256_table :: "pystr \<Rightarrow> pystr" where
  "sha256_table s =
     (if s = ascii ''2025-06-01T14:36:28.2655460.9087955086892799''
      then ascii ''3cded723ab89682be17e264f6087f03918364e30f41f61997efc900d5828bcd7''
      else if s = ascii ''2025-06-01T14:46:34.9803750.9899721258764284''
      then ascii ''3cded723ab895299292ece9507d285b03fe0467773493a10af11880946081b87''
      else if s = ascii ''2025-06-01T14:46:41.5071120.13436424411240122''
      then ascii ''85edd0a689f7c83f99b92052137014affef77864ee2e88411eca80a346872664''
      else if s = ascii ''2025-06-01T14:46:49.1189300.8474337369372327''
      then ascii ''e5518c0901243dca609fb7bfc28e2163337601a082f92e8854a4bfebec53c57e''
      else if s = ascii ''2025-06-01T14:46:55.7302640.763774618976614''
      then ascii ''bbfd542e52fc95bebbb09984ba93899c9e4dd697af35cb10ed407e689015d956''
      else [])"

text \<open>A blind-eval set of two samples, and a score store that holds the first.\<close>

definition sample :: "pystr \<Rightarrow> blind_entry" where
  "sample b =
     \<lparr>blind_entry.blind_id = b, blind_entry.problem_id = ascii ''HumanEval/2'',
      blind_entry.prompt = ascii ''def f():'', blind_entry.completion = ascii ''pass'',
      blind_entry.passed = True\<rparr>"

definition stored :: "(pystr, score_data) dict" where
  "stored =
     [(ascii ''abc123'',
       \<lparr>edge_cases = 3, error_handling = 2, idiomaticity = 4, documentation = 3, ship_it = 3,
        total = 15\<rparr>)]"

text \<open>
  Scores and a key for the analyzer: three samples of the control condition with the
  totals 10, 12 and 14, two of the condition common\_english with the totals 15 and 16, and
  one of the condition greek\_arete with the total 15.
\<close>

definition demo_scores :: "(pystr, score_data) dict" where
  "demo_scores =
     [(ascii ''a1'', make_score [2, 2, 2, 2, 2]), (ascii ''a2'', make_score [3, 3, 2, 2, 2]),
      (ascii ''a3'', make_score [3, 3, 3, 3, 2]), (ascii ''b1'', make_score [3, 3, 3, 3, 3]),
      (ascii ''b2'', make_score [4, 3, 3, 3, 3]), (ascii ''c1'', make_score [3, 3, 3, 3, 3])]"

definition demo_key :: "(pystr, pystr) dict" where
  "demo_key =
     [(ascii ''a1'', ascii ''control''), (ascii ''a2'', ascii ''control''),
      (ascii ''a3'', ascii ''control''), (ascii ''b1'', ascii ''common_english''),
      (ascii ''b2'', ascii ''common_english''), (ascii ''c1'', ascii ''greek_arete'')]"

section \<open>Lemmas about the orchestrator\<close>

lemma mset_shuffle_loop: "k < length x \<Longrightarrow> mset (shuffle_loop rnd k x) = mset x"
proof (induction k arbitrary: x)
  case 0
  show ?case by simp
next
  case (Suc k)
  define j where "j = rnd (Suc k) mod (Suc k + 1)"
  have j: "j < length x"
  proof -
    have "j < Suc (Suc k)" unfolding j_def by simp
    with Suc.prems show ?thesis by linarith
  qed
  have sw: "mset (x[Suc k := x ! j, j := x ! Suc k]) = mset x"
    using mset_swap[OF j Suc.prems] by simp
  have "k < length (x[Suc k := x ! j, j := x ! Suc k])"
    using Suc.prems by simp
  from Suc.IH[OF this] sw show ?case
    by (simp add: Let_def j_def)
qed

lemma mset_shuffle: "mset (shuffle rnd x) = mset x"
proof (cases x)
  case Nil
  then show ?thesis by (simp add: shuffle_def)
next
  case (Cons a as)
  then have "length x - 1 < length x" by simp
  then show ?thesis unfolding shuffle_def by (rule mset_shuffle_loop)
qed

lemma set_shuffle: "set (shuffle rnd x) = set x"
  using mset_shuffle[of rnd x] by (metis set_mset_mset)

lemma length_shuffle: "length (shuffle rnd x) = length x"
  using mset_shuffle[of rnd x] by (metis size_mset)

lemma distinct_load_acc:
  "distinct (map fst acc) \<Longrightarrow>
   distinct (map fst (foldl (\<lambda>problems it.
              if task_id it \<in> set ids
              then AList.update (task_id it)
                     \<lparr>prompt = item.prompt it, test = item.test it,
                      entry_point = item.entry_point it,
                      canonical_solution = item.canonical_solution it\<rparr> problems
              else problems) acc ds))"
  by (induction ds arbitrary: acc) (simp_all add: distinct_update)

lemma distinct_problems: "distinct (map fst (load_humaneval_problems ds ids))"
  unfolding load_humaneval_problems_def by (rule distinct_load_acc) simp

lemma run_trials_eq:
  "\<forall>t\<in>set trials. map_of ps (fst t) \<noteq> None \<Longrightarrow>
   run_trials w ps mdl i trials (rs, bs) =
     Inr (rs @ map (\<lambda>(k, t). fst (outcome_at w ps mdl k t)) (enumerate i trials),
          bs @ map (\<lambda>(k, t). snd (outcome_at w ps mdl k t)) (enumerate i trials))"
proof (induction trials arbitrary: i rs bs)
  case Nil
  show ?case by simp
next
  case (Cons t trials)
  obtain pid c where t: "t = (pid, c)" by (cases t)
  from Cons.prems t obtain p where p: "map_of ps pid = Some p" by auto
  obtain r b where rb: "run_trial w i mdl pid p c = (r, b)" by (cases "run_trial w i mdl pid p c")
  have o: "outcome_at w ps mdl i (pid, c) = (r, b)" by (simp add: outcome_at_def p rb)
  have rest: "\<forall>t\<in>set trials. map_of ps (fst t) \<noteq> None" using Cons.prems by simp
  show ?case
    using Cons.IH[OF rest, of "Suc i" "rs @ [r]" "bs @ [b]"]
    by (simp add: t p rb o)
qed

lemma set_all_trials_fst: "t \<in> set (all_trials ps n) \<Longrightarrow> fst t \<in> fst ` set ps"
  by (force simp: all_trials_def)

subsection \<open>The shape of a run\<close>

lemma trials_have_problems:
  "t \<in> set (trials_of w n) \<Longrightarrow> map_of (problems_of w) (fst t) \<noteq> None"
  unfolding trials_of_def set_shuffle
  by (drule set_all_trials_fst) (simp add: map_of_eq_None_iff)

lemma run_experiment_eq:
  "run_experiment w n mdl =
     Inr \<lparr>executed = trials_of w n,
          results_file = results_of w n mdl,
          blind_eval_file = shuffle (shuffle_blind w) (blind_of w n mdl),
          key_file = key_mapping (results_of w n mdl),
          by_condition_table =
            map (\<lambda>c. pass_row (name c) (filter (\<lambda>r. condition r = name c) (results_of w n mdl)))
              CONDITIONS,
          by_problem_table =
            map (\<lambda>pid. pass_row pid (filter (\<lambda>r. problem_id r = pid) (results_of w n mdl)))
              (map fst (problems_of w)),
          returned = summarize (results_of w n mdl)\<rparr>"
proof -
  have "\<forall>t\<in>set (trials_of w n). map_of (problems_of w) (fst t) \<noteq> None"
    using trials_have_problems by blast
  from run_trials_eq[OF this, of w mdl 0 "[]" "[]"]
  show ?thesis
    unfolding run_experiment_def Let_def
    by (simp add: problems_of_def trials_of_def results_of_def blind_of_def)
qed

lemma length_results_of: "length (results_of w n mdl) = length (trials_of w n)"
  by (simp add: results_of_def)

lemma length_blind_of: "length (blind_of w n mdl) = length (trials_of w n)"
  by (simp add: blind_of_def)

lemma results_of_nth:
  "i < length (trials_of w n) \<Longrightarrow>
   results_of w n mdl ! i = fst (outcome_at w (problems_of w) mdl i (trials_of w n ! i))"
  by (simp add: results_of_def nth_enumerate_eq)

lemma blind_of_nth:
  "i < length (trials_of w n) \<Longrightarrow>
   blind_of w n mdl ! i = snd (outcome_at w (problems_of w) mdl i (trials_of w n ! i))"
  by (simp add: blind_of_def nth_enumerate_eq)

lemma count_rep: "count_list (map (\<lambda>k. x) ks) y = (if x = y then length ks else 0)"
  by (induction ks) auto

lemma count_conds:
  "distinct cs \<Longrightarrow>
   count_list (concat (map (\<lambda>c. map (\<lambda>k. (p, c)) ks) cs)) (p0, c0)
   = (if p = p0 \<and> c0 \<in> set cs then length ks else 0)"
  by (induction cs) (auto simp: count_rep)

lemma count_keys:
  "distinct ps \<Longrightarrow> distinct cs \<Longrightarrow>
   count_list (concat (map (\<lambda>p. concat (map (\<lambda>c. map (\<lambda>k. (p, c)) ks) cs)) ps)) (p0, c0)
   = (if p0 \<in> set ps \<and> c0 \<in> set cs then length ks else 0)"
  by (induction ps) (auto simp: count_conds)

lemma length_conds:
  "length (concat (map (\<lambda>c. map (\<lambda>k. (p, c)) ks) cs)) = length cs * length ks"
  by (induction cs) simp_all

lemma length_keys:
  "length (concat (map (\<lambda>p. concat (map (\<lambda>c. map (\<lambda>k. (p, c)) ks) cs)) ps))
   = length ps * length cs * length ks"
  by (induction ps) (simp_all add: length_conds algebra_simps)

lemma distinct_CONDITIONS: "distinct CONDITIONS"
  by (simp add: CONDITIONS_def ascii_def)

lemma length_CONDITIONS: "length CONDITIONS = 5"
  by (simp add: CONDITIONS_def)

lemma count_all_trials:
  "count_list (all_trials (load_humaneval_problems ds ids) n) (pid, c)
   = (if pid \<in> fst ` set (load_humaneval_problems ds ids) \<and> c \<in> set CONDITIONS then nat n else 0)"
  unfolding all_trials_def
  using count_keys[OF distinct_problems[of ds ids] distinct_CONDITIONS, of "[0..<nat n]" pid c]
  by simp

lemma length_all_trials:
  "length (all_trials ps n) = length ps * length CONDITIONS * nat n"
  unfolding all_trials_def using length_keys[of "[0..<nat n]" CONDITIONS "map fst ps"] by simp

lemma all_trials_product:
  "all_trials ps n =
     map (\<lambda>(pid, c, k). (pid, c)) (List.product (map fst ps) (List.product CONDITIONS [0..<nat n]))"
  unfolding all_trials_def
  by (simp add: product_concat_map map_concat comp_def)

lemma outcome_result_fields:
  "problem_id (fst (outcome_at w ps mdl i t)) = fst t"
  "condition (fst (outcome_at w ps mdl i t)) = name (snd t)"
  "blind_id (fst (outcome_at w ps mdl i t)) = new_blind_id w (trial_env w i)"
  "(completion (fst (outcome_at w ps mdl i t)), passed (fst (outcome_at w ps mdl i t)),
    error (fst (outcome_at w ps mdl i t)))
   = attempt (trial_env w i) (the (map_of ps (fst t))) (snd t) mdl"
  by (simp_all add: outcome_at_def run_trial_def split: prod.splits)

lemma outcome_blind_fields:
  "blind_entry.blind_id (snd (outcome_at w ps mdl i t)) = blind_id (fst (outcome_at w ps mdl i t))"
  "blind_entry.problem_id (snd (outcome_at w ps mdl i t)) = problem_id (fst (outcome_at w ps mdl i t))"
  "blind_entry.completion (snd (outcome_at w ps mdl i t)) = completion (fst (outcome_at w ps mdl i t))"
  "blind_entry.passed (snd (outcome_at w ps mdl i t)) = passed (fst (outcome_at w ps mdl i t))"
  "blind_entry.prompt (snd (outcome_at w ps mdl i t)) = problem.prompt (the (map_of ps (fst t)))"
  by (simp_all add: outcome_at_def run_trial_def split: prod.splits)

lemma count_list_shuffle: "count_list (shuffle rnd xs) x = count_list xs x"
  using mset_shuffle[of rnd xs] by (metis count_mset)

lemma trials_of_empty: "n \<le> 0 \<or> problems_of w = [] \<Longrightarrow> trials_of w n = []"
proof -
  assume "n \<le> 0 \<or> problems_of w = []"
  then have "length (all_trials (problems_of w) n) = 0"
    by (auto simp: length_all_trials)
  then show ?thesis by (simp add: trials_of_def shuffle_def)
qed

subsection \<open>The run in the concrete environment\<close>

lemma demo_problems: "problems_of (demo_world h ids) = [(ascii ''HumanEval/2'', demo_problem)]"
  by (simp add: problems_of_def demo_world_def load_humaneval_problems_def demo_dataset_def
      SELECTED_PROBLEMS_def ascii_def demo_problem_def)

lemma demo_trials:
  "trials_of (demo_world h ids) 1 =
     [(ascii ''HumanEval/2'', CONDITIONS ! 1), (ascii ''HumanEval/2'', CONDITIONS ! 2),
      (ascii ''HumanEval/2'', CONDITIONS ! 3), (ascii ''HumanEval/2'', CONDITIONS ! 4),
      (ascii ''HumanEval/2'', CONDITIONS ! 0)]"
  unfolding trials_of_def demo_problems
  by (simp add: all_trials_def CONDITIONS_def shuffle_def demo_world_def)

lemma demo_generate_fail:
  "i mod 3 = 0 \<Longrightarrow>
   generate_completion (service (trial_env (demo_world h ids) i)) p c mdl
   = Inl (Exception APIError (full_prompt p c))"
  by (simp add: generate_completion_def demo_world_def demo_service_def echo_def)

lemma demo_generate_pass:
  "i mod 3 = 1 \<Longrightarrow>
   generate_completion (service (trial_env (demo_world h ids) i)) p c mdl = Inr (ascii ''pass'')"
  by (simp add: generate_completion_def demo_world_def demo_service_def reply_def py_index_def
      extract_code_def fence_def py_strip_def isspace_def ascii_def)

lemma demo_generate_surrogate:
  "i mod 3 = 2 \<Longrightarrow>
   generate_completion (service (trial_env (demo_world h ids) i)) p c mdl = Inr [55296]"
  by (simp add: generate_completion_def demo_world_def demo_service_def reply_def py_index_def
      extract_code_def fence_def py_strip_def isspace_def ascii_def)

lemma demo_check_pass:
  "check_correctness (checker_os (trial_env (demo_world h ids) i)) (problem.prompt demo_problem)
     (ascii ''pass'') (problem.test demo_problem) (problem.entry_point demo_problem) 5
   = Inr (True, None)"
  by (simp add: check_correctness_def demo_world_def strict_os_def full_code_def verdict_def
      demo_problem_def ascii_def)

lemma demo_check_surrogate:
  "check_correctness (checker_os (trial_env (demo_world h ids) i)) (problem.prompt demo_problem)
     [55296] (problem.test demo_problem) (problem.entry_point demo_problem) 5
   = Inl (Exception UnicodeEncodeError (ascii ''surrogates not allowed''))"
  by (simp add: check_correctness_def demo_world_def strict_os_def full_code_def)

lemma demo_attempt:
  "i mod 3 = 0 \<Longrightarrow> attempt (trial_env (demo_world h ids) i) demo_problem c mdl
     = ([], False, Some (ascii ''Generation error: '' @ full_prompt (ascii ''def f():'') c))"
  "i mod 3 = 1 \<Longrightarrow> attempt (trial_env (demo_world h ids) i) demo_problem c mdl
     = (ascii ''pass'', True, None)"
  "i mod 3 = 2 \<Longrightarrow> attempt (trial_env (demo_world h ids) i) demo_problem c mdl
     = ([], False, Some (ascii ''Generation error: '' @ ascii ''surrogates not allowed''))"
    apply (simp add: attempt_def demo_generate_fail) apply (simp add: demo_problem_def)
   apply (simp add: attempt_def demo_generate_pass demo_check_pass)
  apply (simp add: attempt_def demo_generate_surrogate demo_check_surrogate)
  done

lemma demo_results_nth:
  "i < 5 \<Longrightarrow>
   results_of (demo_world h ids) 1 mdl ! i
   = fst (run_trial (demo_world h ids) i mdl (ascii ''HumanEval/2'') demo_problem
            (snd (trials_of (demo_world h ids) 1 ! i)))"
proof -
  assume i: "i < 5"
  then have "i < length (trials_of (demo_world h ids) 1)" by (simp add: demo_trials)
  from results_of_nth[OF this, of mdl]
  have "results_of (demo_world h ids) 1 mdl ! i
        = fst (outcome_at (demo_world h ids) (problems_of (demo_world h ids)) mdl i
                 (trials_of (demo_world h ids) 1 ! i))" .
  moreover have "fst (trials_of (demo_world h ids) 1 ! i) = ascii ''HumanEval/2''"
    using i unfolding demo_trials by (auto simp: less_Suc_eq numeral_eq_Suc)
  ultimately show ?thesis by (simp add: outcome_at_def demo_problems)
qed

lemma run_experiment_fields:
  assumes "run_experiment w n mdl = Inr out"
  shows "executed out = trials_of w n"
    and "results_file out = results_of w n mdl"
    and "blind_eval_file out = shuffle (shuffle_blind w) (blind_of w n mdl)"
    and "key_file out = key_mapping (results_of w n mdl)"
  using assms unfolding run_experiment_eq by auto

subsection \<open>The key mapping\<close>

lemma key_mapping_snoc:
  "key_mapping (rs @ [r]) = AList.update (blind_id r) (condition r) (key_mapping rs)"
  by (simp add: key_mapping_def)

lemma map_of_key_mapping:
  "map_of (key_mapping rs) = map_of (rev (map (\<lambda>r. (blind_id r, condition r)) rs))"
proof (induction rs rule: rev_induct)
  case Nil
  show ?case by (simp add: key_mapping_def)
next
  case (snoc r rs)
  then show ?case by (simp add: key_mapping_snoc update_conv')
qed

lemma distinct_key_mapping: "distinct (map fst (key_mapping rs))"
  by (induction rs rule: rev_induct) (simp_all add: key_mapping_def distinct_update)

lemma keys_key_mapping: "fst ` set (key_mapping rs) = set (map blind_id rs)"
proof -
  have "fst ` set (key_mapping rs) = dom (map_of (key_mapping rs))"
    by (simp add: dom_map_of_conv_image_fst)
  also have "\<dots> = set (map blind_id rs)"
    unfolding map_of_key_mapping by (force simp: dom_map_of_conv_image_fst)
  finally show ?thesis .
qed

lemma length_key_mapping: "length (key_mapping rs) = card (set (map blind_id rs))"
proof -
  have "length (key_mapping rs) = length (map fst (key_mapping rs))" by simp
  also have "\<dots> = card (set (map fst (key_mapping rs)))"
    by (metis distinct_card distinct_key_mapping)
  also have "\<dots> = card (set (map blind_id rs))"
    using keys_key_mapping[of rs] by simp
  finally show ?thesis .
qed

lemma key_mapping_later:
  "map_of (key_mapping (rs @ r # rs')) (blind_id r)
   = (if blind_id r \<in> set (map blind_id rs')
      then map_of (key_mapping rs') (blind_id r) else Some (condition r))"
proof (cases "blind_id r \<in> set (map blind_id rs')")
  case True
  then have "blind_id r \<in> dom (map_of (rev (map (\<lambda>r. (blind_id r, condition r)) rs')))"
    unfolding dom_map_of_conv_image_fst by (simp add: image_image)
  then show ?thesis
    using True unfolding map_of_key_mapping by (auto simp: map_add_def split: option.splits)
next
  case False
  then have "map_of (rev (map (\<lambda>r. (blind_id r, condition r)) rs')) (blind_id r) = None"
    by (force simp: map_of_eq_None_iff)
  then show ?thesis
    using False unfolding map_of_key_mapping by (simp add: map_add_def)
qed

lemma key_mapping_distinct:
  "distinct (map blind_id rs) \<Longrightarrow> r \<in> set rs \<Longrightarrow>
   map_of (key_mapping rs) (blind_id r) = Some (condition r)"
proof -
  assume d: "distinct (map blind_id rs)" and r: "r \<in> set rs"
  from r obtain xs ys where s: "rs = xs @ r # ys" by (meson split_list)
  with d have "blind_id r \<notin> set (map blind_id ys)" by auto
  then show ?thesis unfolding s key_mapping_later by simp
qed

subsection \<open>The five results of the concrete run\<close>

lemma list5: "length xs = 5 \<Longrightarrow> xs = [xs ! 0, xs ! 1, xs ! 2, xs ! 3, xs ! 4]"
  by (auto simp: length_Suc_conv numeral_eq_Suc)

lemma demo_blind_id:
  "new_blind_id (demo_world h ids) (trial_env (demo_world h ids) i)
   = take 12 (h (fst (ids i) @ snd (ids i)))"
  by (simp add: new_blind_id_def demo_world_def)

lemma demo_results:
  "results_of (demo_world h ids) 1 mdl =
     [\<lparr>problem_id = ascii ''HumanEval/2'', condition = ascii ''common_english'',
       completion = [], passed = False,
       error = Some (ascii ''Generation error: ''
                     @ full_prompt (ascii ''def f():'') (CONDITIONS ! 1)),
       timestamp = fst (ids 0), blind_id = take 12 (h (fst (ids 0) @ snd (ids 0)))\<rparr>,
      \<lparr>problem_id = ascii ''HumanEval/2'', condition = ascii ''greek_arete'',
       completion = ascii ''pass'', passed = True, error = None,
       timestamp = fst (ids 1), blind_id = take 12 (h (fst (ids 1) @ snd (ids 1)))\<rparr>,
      \<lparr>problem_id = ascii ''HumanEval/2'', condition = ascii ''japanese_shokunin'',
       completion = [], passed = False,
       error = Some (ascii ''Generation error: '' @ ascii ''surrogates not allowed''),
       timestamp = fst (ids 2), blind_id = take 12 (h (fst (ids 2) @ snd (ids 2)))\<rparr>,
      \<lparr>problem_id = ascii ''HumanEval/2'', condition = ascii ''combined'',
       completion = [], passed = False,
       error = Some (ascii ''Generation error: ''
                     @ full_prompt (ascii ''def f():'') (CONDITIONS ! 4)),
       timestamp = fst (ids 3), blind_id = take 12 (h (fst (ids 3) @ snd (ids 3)))\<rparr>,
      \<lparr>problem_id = ascii ''HumanEval/2'', condition = ascii ''control'',
       completion = ascii ''pass'', passed = True, error = None,
       timestamp = fst (ids 4), blind_id = take 12 (h (fst (ids 4) @ snd (ids 4)))\<rparr>]"
proof -
  have l: "length (results_of (demo_world h ids) 1 mdl) = 5"
    by (simp add: length_results_of demo_trials)
  have n: "name (CONDITIONS ! 0) = ascii ''control''"
    "name (CONDITIONS ! 1) = ascii ''common_english''"
    "name (CONDITIONS ! 2) = ascii ''greek_arete''"
    "name (CONDITIONS ! 3) = ascii ''japanese_shokunin''"
    "name (CONDITIONS ! 4) = ascii ''combined''"
    "name (CONDITIONS ! Suc 0) = ascii ''common_english''"
    by (simp_all add: CONDITIONS_def)
  have st: "clock_stamp (trial_env (demo_world h ids) i) = fst (ids i)" for i
    by (simp add: demo_world_def)
  have p: "problem.prompt demo_problem = ascii ''def f():''" by (simp add: demo_problem_def)
  have r0: "results_of (demo_world h ids) 1 mdl ! 0 = [
       \<lparr>problem_id = ascii ''HumanEval/2'', condition = ascii ''common_english'',
       completion = [], passed = False,
       error = Some (ascii ''Generation error: ''
                     @ full_prompt (ascii ''def f():'') (CONDITIONS ! 1)),
       timestamp = fst (ids 0), blind_id = take 12 (h (fst (ids 0) @ snd (ids 0)))\<rparr>] ! 0"
    by (simp add: demo_results_nth demo_trials run_trial_def demo_attempt(1) n st demo_blind_id)
  have r1: "results_of (demo_world h ids) 1 mdl ! 1 = [
      \<lparr>problem_id = ascii ''HumanEval/2'', condition = ascii ''greek_arete'',
       completion = ascii ''pass'', passed = True, error = None,
       timestamp = fst (ids 1), blind_id = take 12 (h (fst (ids 1) @ snd (ids 1)))\<rparr>] ! 0"
    by (simp add: demo_results_nth demo_trials run_trial_def demo_attempt(2) n st demo_blind_id)
  have r2: "results_of (demo_world h ids) 1 mdl ! 2 = [
      \<lparr>problem_id = ascii ''HumanEval/2'', condition = ascii ''japanese_shokunin'',
       completion = [], passed = False,
       error = Some (ascii ''Generation error: '' @ ascii ''surrogates not allowed''),
       timestamp = fst (ids 2), blind_id = take 12 (h (fst (ids 2) @ snd (ids 2)))\<rparr>] ! 0"
    by (simp add: demo_results_nth demo_trials run_trial_def demo_attempt(3) n st demo_blind_id)
  have r3: "results_of (demo_world h ids) 1 mdl ! 3 = [
      \<lparr>problem_id = ascii ''HumanEval/2'', condition = ascii ''combined'',
       completion = [], passed = False,
       error = Some (ascii ''Generation error: ''
                     @ full_prompt (ascii ''def f():'') (CONDITIONS ! 4)),
       timestamp = fst (ids 3), blind_id = take 12 (h (fst (ids 3) @ snd (ids 3)))\<rparr>] ! 0"
    by (simp add: demo_results_nth demo_trials run_trial_def demo_attempt(1) n st demo_blind_id)
  have r4: "results_of (demo_world h ids) 1 mdl ! 4 = [
      \<lparr>problem_id = ascii ''HumanEval/2'', condition = ascii ''control'',
       completion = ascii ''pass'', passed = True, error = None,
       timestamp = fst (ids 4), blind_id = take 12 (h (fst (ids 4) @ snd (ids 4)))\<rparr>] ! 0"
    by (simp add: demo_results_nth demo_trials run_trial_def demo_attempt(2) n st demo_blind_id)
  show ?thesis
    using list5[OF l] r0 r1 r2 r3 r4 by simp
qed

subsection \<open>Blind entries and results\<close>

lemma blind_ids_of_results:
  "map blind_entry.blind_id (blind_of w n mdl) = map blind_id (results_of w n mdl)"
  by (simp add: blind_of_def results_of_def outcome_blind_fields split_def)

lemma reattach_blind_of_nth:
  "i < length (trials_of w n) \<Longrightarrow>
   reattach (blind_of w n mdl ! i) c
   = (blind_id (results_of w n mdl ! i), problem_id (results_of w n mdl ! i),
      completion (results_of w n mdl ! i), passed (results_of w n mdl ! i), c)"
  by (simp add: reattach_def blind_of_nth results_of_nth outcome_blind_fields)

lemma blind_of_has_result:
  assumes "b \<in> set (blind_of w n mdl)"
  shows "\<exists>r\<in>set (results_of w n mdl).
           blind_id r = blind_entry.blind_id b \<and> labelled r = reattach b (condition r)"
proof -
  from assms obtain i where i: "i < length (blind_of w n mdl)" and b: "b = blind_of w n mdl ! i"
    by (auto simp: in_set_conv_nth)
  from i have it: "i < length (trials_of w n)" by (simp add: length_blind_of)
  then have "results_of w n mdl ! i \<in> set (results_of w n mdl)"
    by (simp add: length_results_of)
  moreover have "blind_id (results_of w n mdl ! i) = blind_entry.blind_id b"
    unfolding b using it by (simp add: blind_of_nth results_of_nth outcome_blind_fields)
  moreover have "labelled (results_of w n mdl ! i) = reattach b (condition (results_of w n mdl ! i))"
    unfolding b reattach_blind_of_nth[OF it] by (simp add: labelled_def)
  ultimately show ?thesis by blast
qed

lemma inverse_of_distinct:
  assumes "distinct (map blind_id (results_of w n mdl))"
  shows "blind_key_inverse (results_of w n mdl)
           (shuffle (shuffle_blind w) (blind_of w n mdl)) (key_mapping (results_of w n mdl))"
proof -
  have ids: "set (map blind_entry.blind_id (shuffle (shuffle_blind w) (blind_of w n mdl)))
             = set (map blind_id (results_of w n mdl))"
    using blind_ids_of_results[of w n mdl] by (simp add: set_shuffle) (metis list.set_map)
  have each: "case map_of (key_mapping (results_of w n mdl)) (blind_entry.blind_id b) of
                None \<Rightarrow> False
              | Some c \<Rightarrow> (\<exists>r\<in>set (results_of w n mdl). labelled r = reattach b c)"
    if "b \<in> set (shuffle (shuffle_blind w) (blind_of w n mdl))" for b
  proof -
    from that have "b \<in> set (blind_of w n mdl)" by (simp add: set_shuffle)
    from blind_of_has_result[OF this] obtain r where r: "r \<in> set (results_of w n mdl)"
      "blind_id r = blind_entry.blind_id b" "labelled r = reattach b (condition r)"
      by blast
    from key_mapping_distinct[OF assms r(1)] r(2)
    have "map_of (key_mapping (results_of w n mdl)) (blind_entry.blind_id b) = Some (condition r)"
      by simp
    with r show ?thesis by auto
  qed
  show ?thesis unfolding blind_key_inverse_def using ids each by blast
qed

subsection \<open>A run in which two blind ids collide\<close>

lemma collision_ids:
  "take 12 (sha256_table (fst (observed 0) @ snd (observed 0))) = ascii ''3cded723ab89''"
  "take 12 (sha256_table (fst (observed 1) @ snd (observed 1))) = ascii ''3cded723ab89''"
  "take 12 (sha256_table (fst (observed 2) @ snd (observed 2))) = ascii ''85edd0a689f7''"
  "take 12 (sha256_table (fst (observed 3) @ snd (observed 3))) = ascii ''e5518c090124''"
  "take 12 (sha256_table (fst (observed 4) @ snd (observed 4))) = ascii ''bbfd542e52fc''"
  by (simp_all add: sha256_table_def observed_def ascii_def)

lemma collision_key:
  "key_mapping (results_of (demo_world sha256_table observed) 1 mdl)
   = [(ascii ''3cded723ab89'', ascii ''greek_arete''),
      (ascii ''85edd0a689f7'', ascii ''japanese_shokunin''),
      (ascii ''e5518c090124'', ascii ''combined''),
      (ascii ''bbfd542e52fc'', ascii ''control'')]"
  unfolding demo_results collision_ids
  by (simp add: key_mapping_def ascii_def)

lemma collision_not_inverse:
  "\<not> blind_key_inverse (results_of (demo_world sha256_table observed) 1 mdl)
       (shuffle (shuffle_blind (demo_world sha256_table observed))
          (blind_of (demo_world sha256_table observed) 1 mdl))
       (key_mapping (results_of (demo_world sha256_table observed) 1 mdl))"
proof
  let ?w = "demo_world sha256_table observed"
  let ?b = "blind_of ?w 1 mdl ! 0"
  assume inv: "blind_key_inverse (results_of ?w 1 mdl)
       (shuffle (shuffle_blind ?w) (blind_of ?w 1 mdl)) (key_mapping (results_of ?w 1 mdl))"
  have l: "0 < length (trials_of ?w 1)" by (simp add: demo_trials)
  then have "?b \<in> set (shuffle (shuffle_blind ?w) (blind_of ?w 1 mdl))"
    by (simp add: set_shuffle length_blind_of)
  with inv have c: "case map_of (key_mapping (results_of ?w 1 mdl)) (blind_entry.blind_id ?b) of
                None \<Rightarrow> False
              | Some c \<Rightarrow> (\<exists>r\<in>set (results_of ?w 1 mdl). labelled r = reattach ?b c)"
    unfolding blind_key_inverse_def by blast
  have id: "blind_entry.blind_id ?b = ascii ''3cded723ab89''"
    using l by (simp add: blind_of_nth outcome_blind_fields outcome_result_fields demo_blind_id
        collision_ids)
  have k: "map_of (key_mapping (results_of ?w 1 mdl)) (ascii ''3cded723ab89'')
           = Some (ascii ''greek_arete'')"
    unfolding collision_key by simp
  from c have "\<exists>r\<in>set (results_of ?w 1 mdl). labelled r = reattach ?b (ascii ''greek_arete'')"
    unfolding id k by simp
  then show False
    unfolding reattach_blind_of_nth[OF l] unfolding demo_results collision_ids
    by (simp add: labelled_def ascii_def)
qed

lemma key_of_last_occurrence:
  assumes j: "j < length rs"
    and last: "\<forall>k. j < k \<and> k < length rs \<longrightarrow> blind_id (rs ! k) \<noteq> blind_id (rs ! j)"
  shows "map_of (key_mapping rs) (blind_id (rs ! j)) = Some (condition (rs ! j))"
proof -
  have s: "rs = take j rs @ rs ! j # drop (Suc j) rs"
    using j by (rule id_take_nth_drop)
  have "blind_id (rs ! j) \<notin> set (map blind_id (drop (Suc j) rs))"
  proof
    assume "blind_id (rs ! j) \<in> set (map blind_id (drop (Suc j) rs))"
    then obtain m where m: "m < length (drop (Suc j) rs)"
      and e: "blind_id (drop (Suc j) rs ! m) = blind_id (rs ! j)"
      by (auto simp: in_set_conv_nth)
    from m have "j < Suc j + m \<and> Suc j + m < length rs" by simp
    with last have "blind_id (rs ! (Suc j + m)) \<noteq> blind_id (rs ! j)" by blast
    with e m show False by simp
  qed
  then have "map_of (key_mapping (take j rs @ rs ! j # drop (Suc j) rs)) (blind_id (rs ! j))
             = Some (condition (rs ! j))"
    unfolding key_mapping_later by simp
  with s show ?thesis by simp
qed

lemma key_shorter:
  "\<not> distinct (map blind_id rs) \<Longrightarrow> length (key_mapping rs) < length rs"
proof -
  assume nd: "\<not> distinct (map blind_id rs)"
  have "card (set (map blind_id rs)) \<le> length (map blind_id rs)" by (rule card_length)
  moreover have "card (set (map blind_id rs)) \<noteq> length (map blind_id rs)"
    using nd card_distinct by blast
  ultimately show ?thesis unfolding length_key_mapping by simp
qed

section \<open>Lemmas about the scoring session\<close>

lemma make_score_valid:
  "length parts = 5 \<Longrightarrow> list_all in_range parts \<Longrightarrow> valid_score (make_score parts)"
  by (auto simp: length_Suc_conv numeral_eq_Suc valid_score_def make_score_def)

lemma those_None_iff: "those (map f xs) = None \<longleftrightarrow> (\<exists>x\<in>set xs. f x = None)"
  by (induction xs) (auto split: option.splits)

text \<open>The answers that the loop of one sample accepts.\<close>

lemma ask_rejects:
  assumes "str_lower lib (py_strip line) \<noteq> ascii ''q''"
    and "str_lower lib (py_strip line) \<noteq> ascii ''s''"
  shows "parse_parts lib (str_lower lib (py_strip line)) = None \<Longrightarrow>
           ask lib bid scores (line # inputs) out
           = ask lib bid scores inputs (out @ [Prompt bid, Invalid_format])"
    and "parse_parts lib (str_lower lib (py_strip line)) = Some parts \<Longrightarrow> length parts \<noteq> 5 \<Longrightarrow>
           ask lib bid scores (line # inputs) out
           = ask lib bid scores inputs (out @ [Prompt bid, Need_exactly_5])"
    and "parse_parts lib (str_lower lib (py_strip line)) = Some parts \<Longrightarrow> length parts = 5 \<Longrightarrow>
           \<not> list_all in_range parts \<Longrightarrow>
           ask lib bid scores (line # inputs) out
           = ask lib bid scores inputs (out @ [Prompt bid, Scores_must_be_1_5])"
  using assms by (simp_all add: Let_def)

lemma ask_outcome:
  "ask lib bid scores inputs out = (out', a) \<Longrightarrow>
   (\<exists>ev. out' = out @ ev
      \<and> (\<forall>e\<in>set ev. (\<forall>it. e \<noteq> Sample it) \<and> (\<forall>b. e = Prompt b \<longrightarrow> b = bid)
             \<and> (\<forall>ps t. e = Recorded ps t \<longrightarrow>
                    length ps = 5 \<and> list_all in_range ps \<and> t = sum_list ps)))
   \<and> (a = Stop_EOF \<or> a = Stop_quit scores \<or> (\<exists>inp. a = Continue scores inp)
      \<or> (\<exists>parts inp. a = Continue (AList.update bid (make_score parts) scores) inp
            \<and> length parts = 5 \<and> list_all in_range parts))"
proof (induction inputs arbitrary: out)
  case Nil
  then show ?case by auto
next
  case (Cons line inputs)
  let ?r = "str_lower lib (py_strip line)"
  consider (q) "?r = ascii ''q''" | (s) "?r \<noteq> ascii ''q''" "?r = ascii ''s''"
    | (bad) msg where "?r \<noteq> ascii ''q''" "?r \<noteq> ascii ''s''"
        "ask lib bid scores (line # inputs) out = ask lib bid scores inputs (out @ [Prompt bid, msg])"
        "msg = Invalid_format \<or> msg = Need_exactly_5 \<or> msg = Scores_must_be_1_5"
    | (ok) parts where "?r \<noteq> ascii ''q''" "?r \<noteq> ascii ''s''"
        "parse_parts lib ?r = Some parts" "length parts = 5" "list_all in_range parts"
  proof (cases "?r = ascii ''q'' \<or> ?r = ascii ''s''")
    case True
    then show ?thesis using q s by blast
  next
    case False
    then have n: "?r \<noteq> ascii ''q''" "?r \<noteq> ascii ''s''" by auto
    show ?thesis
    proof (cases "parse_parts lib ?r")
      case None
      from ask_rejects(1)[OF n None] show ?thesis using bad n by blast
    next
      case (Some parts)
      show ?thesis
      proof (cases "length parts = 5")
        case False
        from ask_rejects(2)[OF n Some False] show ?thesis using bad n by blast
      next
        case True
        show ?thesis
        proof (cases "list_all in_range parts")
          case False
          from ask_rejects(3)[OF n Some True False] show ?thesis using bad n by blast
        next
          case r: True
          show ?thesis using ok n Some True r by blast
        qed
      qed
    qed
  qed
  then show ?case
  proof cases
    case q
    with Cons.prems show ?thesis by (auto simp: Let_def)
  next
    case s
    with Cons.prems show ?thesis by (auto simp: Let_def)
  next
    case (bad msg)
    from Cons.prems bad(3)
    have "ask lib bid scores inputs (out @ [Prompt bid, msg]) = (out', a)" by simp
    from Cons.IH[OF this] bad(4) show ?thesis by auto
  next
    case (ok parts)
    with Cons.prems show ?thesis by (auto simp: Let_def)
  qed
qed

lemma extends_refl: "extends s s"
  by (simp add: extends_def)

lemma extends_update:
  "extends s0 sc \<Longrightarrow> map_of sc bid = None \<Longrightarrow> valid_score v \<Longrightarrow>
   extends s0 (AList.update bid v sc)"
  unfolding extends_def by (auto simp: update_conv')

lemma score_loop_extends:
  "extends s0 scores \<Longrightarrow>
   (\<forall>final. written (score_loop lib data scores inputs out) = Some final \<longrightarrow> extends s0 final)
   \<and> (\<forall>final. returned_scores (score_loop lib data scores inputs out) = Inr final \<longrightarrow>
         extends s0 final)"
proof (induction data arbitrary: scores inputs out)
  case Nil
  then show ?case by simp
next
  case (Cons it data)
  let ?b = "blind_entry.blind_id it"
  show ?case
  proof (cases "map_of scores ?b")
    case (Some sd)
    with Cons.IH[OF Cons.prems] show ?thesis by simp
  next
    case None
    obtain out' a where a: "ask lib ?b scores inputs (out @ [Sample it]) = (out', a)"
      by (cases "ask lib ?b scores inputs (out @ [Sample it])")
    from ask_outcome[OF a]
    consider "a = Stop_EOF" | "a = Stop_quit scores" | inp where "a = Continue scores inp"
      | parts inp where "a = Continue (AList.update ?b (make_score parts) scores) inp"
          "length parts = 5" "list_all in_range parts"
      by blast
    then show ?thesis
    proof cases
      case 1
      then show ?thesis using None a by simp
    next
      case 2
      then show ?thesis using None a Cons.prems by simp
    next
      case 3
      then show ?thesis using None a Cons.IH[OF Cons.prems] by simp
    next
      case 4
      have "extends s0 (AList.update ?b (make_score parts) scores)"
        using Cons.prems None make_score_valid[OF 4(2,3)] by (rule extends_update)
      from Cons.IH[OF this] show ?thesis using None a 4(1) by simp
    qed
  qed
qed

lemma score_loop_presents:
  "map_of scores b \<noteq> None \<Longrightarrow>
   \<forall>e\<in>set (transcript (score_loop lib data scores inputs out)). presents e b \<longrightarrow> e \<in> set out"
proof (induction data arbitrary: scores inputs out)
  case Nil
  then show ?case by auto
next
  case (Cons it data)
  let ?b = "blind_entry.blind_id it"
  show ?case
  proof (cases "map_of scores ?b")
    case (Some sd)
    from Cons.IH[OF Cons.prems, of inputs "out @ [Already_scored ?b]"] Some
    show ?thesis by auto
  next
    case None
    with Cons.prems have ne: "?b \<noteq> b" by auto
    obtain out' a where a: "ask lib ?b scores inputs (out @ [Sample it]) = (out', a)"
      by (cases "ask lib ?b scores inputs (out @ [Sample it])")
    from ask_outcome[OF a] obtain ev where ev: "out' = out @ [Sample it] @ ev"
      "\<forall>e\<in>set ev. (\<forall>it. e \<noteq> Sample it) \<and> (\<forall>b. e = Prompt b \<longrightarrow> b = ?b)"
      by auto
    have new: "\<forall>e\<in>set out'. presents e b \<longrightarrow> e \<in> set out"
    proof (intro ballI impI)
      fix e assume e: "e \<in> set out'" "presents e b"
      then consider "e \<in> set out" | "e = Sample it" | "e \<in> set ev" using ev(1) by auto
      then show "e \<in> set out"
      proof cases
        case 1 then show ?thesis .
      next
        case 2 with e(2) ne show ?thesis by simp
      next
        case 3
        with ev(2) e(2) ne show ?thesis by (cases e) auto
      qed
    qed
    from ask_outcome[OF a]
    consider "a = Stop_EOF" | "a = Stop_quit scores" | inp where "a = Continue scores inp"
      | parts inp where "a = Continue (AList.update ?b (make_score parts) scores) inp"
      by blast
    then show ?thesis
    proof cases
      case 1
      then show ?thesis using None a new by simp
    next
      case 2
      then show ?thesis using None a new by simp
    next
      case 3
      from Cons.IH[OF Cons.prems, of inp out'] new
      show ?thesis using None a 3 by auto
    next
      case 4
      have "map_of (AList.update ?b (make_score parts) scores) b \<noteq> None"
        using Cons.prems ne by (simp add: update_conv')
      from Cons.IH[OF this, of inp out'] new
      show ?thesis using None a 4 by auto
    qed
  qed
qed

subsection \<open>Sessions on concrete input\<close>

lemma lowered:
  "str_lower ascii_builtins (py_strip (ascii ''1,2'')) = ascii ''1,2''"
  "str_lower ascii_builtins (py_strip (ascii ''x,1,1,1,1'')) = ascii ''x,1,1,1,1''"
  "str_lower ascii_builtins (py_strip (ascii ''1,2,3,4,6'')) = ascii ''1,2,3,4,6''"
  "str_lower ascii_builtins (py_strip (ascii '' 1, 2,3,4,5 '')) = ascii ''1, 2,3,4,5''"
  by (simp_all add: ascii_builtins_def ascii_lower_def py_strip_def isspace_def ascii_def)

lemma parsed:
  "parse_parts ascii_builtins (ascii ''1,2'') = Some [1, 2]"
  "parse_parts ascii_builtins (ascii ''x,1,1,1,1'') = None"
  "parse_parts ascii_builtins (ascii ''1,2,3,4,6'') = Some [1, 2, 3, 4, 6]"
  "parse_parts ascii_builtins (ascii ''1, 2,3,4,5'') = Some [1, 2, 3, 4, 5]"
  by (simp_all add: parse_parts_def py_split_def ascii_builtins_def ascii_int_def
      digits_value_def py_strip_def isspace_def ascii_def)

lemma not_control:
  "ascii ''1,2'' \<noteq> ascii ''q''" "ascii ''1,2'' \<noteq> ascii ''s''"
  "ascii ''x,1,1,1,1'' \<noteq> ascii ''q''" "ascii ''x,1,1,1,1'' \<noteq> ascii ''s''"
  "ascii ''1,2,3,4,6'' \<noteq> ascii ''q''" "ascii ''1,2,3,4,6'' \<noteq> ascii ''s''"
  "ascii ''1, 2,3,4,5'' \<noteq> ascii ''q''" "ascii ''1, 2,3,4,5'' \<noteq> ascii ''s''"
  by (simp_all add: ascii_def)

lemma resumed_session:
  "evaluate_interactively ascii_builtins [sample (ascii ''abc123''), sample (ascii ''def456'')]
     (Some stored) [ascii '' 1, 2,3,4,5 '']
   = \<lparr>returned_scores = Inr (stored @ [(ascii ''def456'', make_score [1, 2, 3, 4, 5])]),
      written = Some (stored @ [(ascii ''def456'', make_score [1, 2, 3, 4, 5])]),
      transcript = [Loaded 1, Already_scored (ascii ''abc123''), Sample (sample (ascii ''def456'')),
                    Prompt (ascii ''def456''), Recorded [1, 2, 3, 4, 5] 15,
                    Evaluation_complete]\<rparr>"
proof -
  have k: "map_of stored (ascii ''abc123'') \<noteq> None" "map_of stored (ascii ''def456'') = None"
    by (simp_all add: stored_def ascii_def)
  have u: "AList.update (ascii ''def456'') v stored = stored @ [(ascii ''def456'', v)]" for v
    by (simp add: stored_def ascii_def)
  have m: "map_of (stored @ [(ascii ''def456'', v)]) (ascii ''def456'') \<noteq> None" for v
    by (simp add: stored_def ascii_def)
  have ne: "ascii ''def456'' \<noteq> ascii ''abc123''" by (simp add: ascii_def)
  have b: "blind_entry.blind_id (sample x) = x" for x by (simp add: sample_def)
  show ?thesis
    by (simp add: evaluate_interactively_def b k u m ne ne[symmetric] lowered parsed not_control Let_def
        in_range_def stored_def)
qed

lemma fresh_session:
  "evaluate_interactively ascii_builtins [sample (ascii ''def456'')] None
     [ascii ''1,2'', ascii ''x,1,1,1,1'', ascii ''1,2,3,4,6'', ascii '' 1, 2,3,4,5 '']
   = \<lparr>returned_scores = Inr [(ascii ''def456'', make_score [1, 2, 3, 4, 5])],
      written = Some [(ascii ''def456'', make_score [1, 2, 3, 4, 5])],
      transcript = [Sample (sample (ascii ''def456'')),
                    Prompt (ascii ''def456''), Need_exactly_5,
                    Prompt (ascii ''def456''), Invalid_format,
                    Prompt (ascii ''def456''), Scores_must_be_1_5,
                    Prompt (ascii ''def456''), Recorded [1, 2, 3, 4, 5] 15,
                    Evaluation_complete]\<rparr>"
proof -
  have b: "blind_entry.blind_id (sample x) = x" for x by (simp add: sample_def)
  show ?thesis
    by (simp add: evaluate_interactively_def b lowered parsed not_control Let_def in_range_def)
qed

section \<open>Lemmas about the analyzer\<close>

lemma append_to_nonempty:
  "\<forall>g\<in>snd ` set d. g \<noteq> [] \<Longrightarrow> \<forall>g\<in>snd ` set (append_to d k v). g \<noteq> []"
proof -
  assume a: "\<forall>g\<in>snd ` set d. g \<noteq> []"
  have "set (AList.update k x d) \<subseteq> insert (k, x) (set d)" for x
    by (induction d) auto
  then show ?thesis using a unfolding append_to_def by fastforce
qed

lemma groups_nonempty_acc:
  "\<forall>g\<in>snd ` set acc. g \<noteq> [] \<Longrightarrow>
   \<forall>g\<in>snd ` set (foldl (\<lambda>by_condition (bid, sd).
              case map_of key bid of
                None \<Rightarrow> by_condition
              | Some cnd \<Rightarrow> if cnd \<noteq> [] then append_to by_condition cnd sd else by_condition)
       acc scores). g \<noteq> []"
proof (induction scores arbitrary: acc)
  case Nil
  then show ?case by simp
next
  case (Cons x scores)
  obtain bid sd where x: "x = (bid, sd)" by (cases x)
  show ?case
    using Cons.IH[OF Cons.prems] Cons.IH[OF append_to_nonempty[OF Cons.prems]]
    by (simp add: x split: option.splits)
qed

lemma groups_nonempty:
  "map_of (group_by_condition scores key) c = Some g \<Longrightarrow> g \<noteq> []"
proof -
  assume "map_of (group_by_condition scores key) c = Some g"
  then have "(c, g) \<in> set (group_by_condition scores key)" by (rule map_of_SomeD)
  then have "g \<in> snd ` set (group_by_condition scores key)" by force
  moreover have "\<forall>g\<in>snd ` set (group_by_condition scores key). g \<noteq> []"
    unfolding group_by_condition_def by (rule groups_nonempty_acc) simp
  ultimately show ?thesis by blast
qed

lemma sample_std_total: "\<exists>s. sample_std xs = Inr s"
  by (simp add: sample_std_def py_stdev_def)

lemma compare_row_total:
  "xs \<noteq> [] \<Longrightarrow> \<exists>row. compare_row cm cs cnd xs = Inr row"
  using sample_std_total[of xs] by (auto simp: compare_row_def py_mean_def)

lemma compare_all_total:
  "\<forall>c g. map_of bc c = Some g \<longrightarrow> g \<noteq> [] \<Longrightarrow> \<exists>rows. compare_all bc cm cs conds = Inr rows"
proof (induction conds)
  case Nil
  show ?case by simp
next
  case (Cons c conds)
  from Cons.IH[OF Cons.prems] obtain rows where r: "compare_all bc cm cs conds = Inr rows"
    by blast
  show ?case
  proof (cases "map_of bc c")
    case None
    with r show ?thesis by simp
  next
    case (Some g)
    from Cons.prems Some have "map total g \<noteq> []" by simp
    from compare_row_total[OF this] obtain row
      where "compare_row cm cs c (map total g) = Inr row" by blast
    with Some r show ?thesis by simp
  qed
qed

lemma compare_all_rows:
  "compare_all bc cm cs conds = Inr rows \<Longrightarrow> row \<in> set rows \<Longrightarrow>
   \<exists>c g. c \<in> set conds \<and> map_of bc c = Some g \<and> compare_row cm cs c (map total g) = Inr row"
proof (induction conds arbitrary: rows)
  case Nil
  then show ?case by simp
next
  case (Cons c conds)
  show ?case
  proof (cases "map_of bc c")
    case None
    with Cons.prems have "compare_all bc cm cs conds = Inr rows" by simp
    from Cons.IH[OF this Cons.prems(2)] show ?thesis by auto
  next
    case (Some g)
    with Cons.prems(1) obtain r rs where r: "compare_row cm cs c (map total g) = Inr r"
      and rs: "compare_all bc cm cs conds = Inr rs" and e: "rows = r # rs"
      by (auto split: sum.splits)
    from Cons.prems(2) e consider "row = r" | "row \<in> set rs" by auto
    then show ?thesis
    proof cases
      case 1
      with Some r show ?thesis by auto
    next
      case 2
      from Cons.IH[OF rs 2] show ?thesis by auto
    qed
  qed
qed

lemma pooled_std_pos: "0 < pooled_std a b"
proof (cases "a \<noteq> 0 \<and> b \<noteq> 0")
  case True
  then have "0 < (a\<^sup>2 + b\<^sup>2) / 2" by (simp add: sum_power2_gt_zero_iff)
  with True show ?thesis by (simp add: pooled_std_def)
next
  case False
  then show ?thesis by (auto simp: pooled_std_def)
qed

lemma compare_all_covers:
  "compare_all bc cm cs conds = Inr rows \<Longrightarrow> c \<in> set conds \<Longrightarrow> map_of bc c = Some g \<Longrightarrow>
   \<exists>row\<in>set rows. cond row = c"
proof (induction conds arbitrary: rows)
  case Nil
  then show ?case by simp
next
  case (Cons d conds)
  show ?case
  proof (cases "map_of bc d")
    case None
    with Cons.prems have r: "compare_all bc cm cs conds = Inr rows" and "c \<in> set conds"
      by auto
    from Cons.IH[OF r \<open>c \<in> set conds\<close> Cons.prems(3)] show ?thesis .
  next
    case (Some h)
    with Cons.prems(1) obtain r rs where r: "compare_row cm cs d (map total h) = Inr r"
      and rs: "compare_all bc cm cs conds = Inr rs" and e: "rows = r # rs"
      by (auto split: sum.splits)
    from r have cr: "cond r = d" by (auto simp: compare_row_def split: sum.splits)
    show ?thesis
    proof (cases "c = d")
      case True
      with cr e show ?thesis by simp
    next
      case False
      with Cons.prems(2) have "c \<in> set conds" by simp
      from Cons.IH[OF rs this Cons.prems(3)] e show ?thesis by auto
    qed
  qed
qed

lemma analyze_cases:
  "(map_of (group_by_condition scores key) (ascii ''control'') = None
      \<and> analyze results scores key = Inr None)
   \<or> (\<exists>ctl cm cs rows.
        map_of (group_by_condition scores key) (ascii ''control'') = Some ctl
        \<and> ctl \<noteq> []
        \<and> py_mean (map total ctl) = Inr cm
        \<and> sample_std (map total ctl) = Inr cs
        \<and> compare_all (group_by_condition scores key) cm cs treatments = Inr rows
        \<and> analyze results scores key = Inr (Some ((cm, cs, length ctl), rows)))"
proof (cases "map_of (group_by_condition scores key) (ascii ''control'')")
  case None
  then show ?thesis by (simp add: analyze_def)
next
  case (Some ctl)
  then have ne: "ctl \<noteq> []" by (rule groups_nonempty)
  then obtain cm where cm: "py_mean (map total ctl) = Inr cm" by (simp add: py_mean_def)
  obtain cs where cs: "sample_std (map total ctl) = Inr cs" using sample_std_total by blast
  have "\<forall>c g. map_of (group_by_condition scores key) c = Some g \<longrightarrow> g \<noteq> []"
    using groups_nonempty by blast
  from compare_all_total[OF this] obtain rows
    where rows: "compare_all (group_by_condition scores key) cm cs treatments = Inr rows"
    by blast
  show ?thesis using Some ne cm cs rows by (simp add: analyze_def)
qed

subsection \<open>The analysis of the concrete scores\<close>

lemma demo_groups:
  "group_by_condition demo_scores demo_key
   = [(ascii ''control'',
       [make_score [2, 2, 2, 2, 2], make_score [3, 3, 2, 2, 2], make_score [3, 3, 3, 3, 2]]),
      (ascii ''common_english'', [make_score [3, 3, 3, 3, 3], make_score [4, 3, 3, 3, 3]]),
      (ascii ''greek_arete'', [make_score [3, 3, 3, 3, 3]])]"
  by (simp add: group_by_condition_def demo_scores_def demo_key_def append_to_def ascii_def)

lemma demo_totals:
  "map total [make_score [2, 2, 2, 2, 2], make_score [3, 3, 2, 2, 2], make_score [3, 3, 3, 3, 2]]
   = [10, 12, 14]"
  "map total [make_score [3, 3, 3, 3, 3], make_score [4, 3, 3, 3, 3]] = [15, 16]"
  "map total [make_score [3, 3, 3, 3, 3]] = [15]"
  by (simp_all add: make_score_def)

lemma demo_std:
  "sample_std [10, 12, 14] = Inr 2"
  "sample_std [15, 16] = Inr (sqrt (1 / 2))"
  "sample_std [15] = Inr 0"
  by (simp_all add: sample_std_def py_stdev_def power2_eq_square)

lemma demo_pooled: "pooled_std 2 (sqrt (1 / 2)) = 3 / 2"
proof -
  have "sqrt ((2\<^sup>2 + (sqrt (1 / 2))\<^sup>2) / 2) = 3 / 2"
    by (rule real_sqrt_unique) (simp_all add: power2_eq_square)
  then show ?thesis by (simp add: pooled_std_def)
qed

lemma demo_analysis:
  "analyze [] demo_scores demo_key
   = Inr (Some ((12, 2, 3),
        [\<lparr>cond = ascii ''common_english'', mean_total = 31 / 2, std_total = sqrt (1 / 2),
          diff = 7 / 2, pct_diff = 175 / 6, effect = 7 / 3\<rparr>,
         \<lparr>cond = ascii ''greek_arete'', mean_total = 15, std_total = 0,
          diff = 3, pct_diff = 25, effect = 3\<rparr>]))"
proof -
  have m: "py_mean [10, 12, 14] = Inr 12" "py_mean [15, 16] = Inr (31 / 2)"
    "py_mean [15] = Inr 15"
    by (simp_all add: py_mean_def)
  have p0: "pooled_std 2 0 = 1" by (simp add: pooled_std_def)
  have t: "total (make_score parts) = sum_list parts" for parts
    by (simp add: make_score_def)
  show ?thesis
    unfolding analyze_def Let_def demo_groups
    by (simp add: t demo_std m treatments_def compare_row_def demo_pooled p0 ascii_def)
qed

section \<open>The trial orchestrator: the blind-eval file and the key file\<close>

text \<open>
  C1 (as amended). For every run in which the blind ids of the results are pairwise
  distinct, the blind-eval file and the key file invert the redaction: the blind ids of
  the blind-eval file are those of the results (as sets and with multiplicity), every
  blind id of the blind-eval file is a key of the key file, exactly one result has that
  blind id, and the blind entry with the condition of the key attached again is that
  result restricted to the fields blind id, problem id, completion, passed and condition.
\<close>

theorem C1_blind_key_inverse:
  assumes "run_experiment w n mdl = Inr out"
    and "distinct (map blind_id (results_file out))"
  shows "blind_key_inverse (results_file out) (blind_eval_file out) (key_file out)
     \<and> mset (map blind_entry.blind_id (blind_eval_file out))
         = mset (map blind_id (results_file out))
     \<and> (\<forall>b\<in>set (blind_eval_file out).
           \<exists>!r. r \<in> set (results_file out) \<and> blind_id r = blind_entry.blind_id b)
     \<and> (\<forall>b\<in>set (blind_eval_file out). \<forall>r\<in>set (results_file out).
           blind_id r = blind_entry.blind_id b \<longrightarrow>
           map_of (key_file out) (blind_entry.blind_id b) = Some (condition r)
           \<and> reattach b (condition r) = labelled r)"
proof -
  let ?R = "results_of w n mdl"
  let ?B = "blind_of w n mdl"
  note f = run_experiment_fields[OF assms(1)]
  have d: "distinct (map blind_id ?R)" using assms(2) by (simp add: f)
  have inj: "r = r'" if "r \<in> set ?R" "r' \<in> set ?R" "blind_id r = blind_id r'" for r r'
    using d that by (meson distinct_map inj_onD)
  have p1: "blind_key_inverse ?R (shuffle (shuffle_blind w) ?B) (key_mapping ?R)"
    using d by (rule inverse_of_distinct)
  have p2: "mset (map blind_entry.blind_id (shuffle (shuffle_blind w) ?B))
            = mset (map blind_id ?R)"
    using blind_ids_of_results[of w n mdl] by (metis mset_map mset_shuffle)
  have ex: "\<exists>r\<in>set ?R. blind_id r = blind_entry.blind_id b
              \<and> labelled r = reattach b (condition r)"
    if "b \<in> set (shuffle (shuffle_blind w) ?B)" for b
    using that blind_of_has_result[of b w n mdl] by (simp add: set_shuffle)
  have p3: "\<exists>!r. r \<in> set ?R \<and> blind_id r = blind_entry.blind_id b"
    if "b \<in> set (shuffle (shuffle_blind w) ?B)" for b
    using ex[OF that] inj by metis
  have p4: "map_of (key_mapping ?R) (blind_entry.blind_id b) = Some (condition r)
            \<and> reattach b (condition r) = labelled r"
    if b: "b \<in> set (shuffle (shuffle_blind w) ?B)" and r: "r \<in> set ?R"
      and e: "blind_id r = blind_entry.blind_id b" for b r
  proof -
    from ex[OF b] obtain r' where r': "r' \<in> set ?R" "blind_id r' = blind_entry.blind_id b"
      "labelled r' = reattach b (condition r')" by blast
    with inj[OF r r'(1)] e have "r = r'" by simp
    with r' key_mapping_distinct[OF d r] e show ?thesis by simp
  qed
  show ?thesis
    unfolding f using p1 p2 p3 p4 by blast
qed

text \<open>
  C1 in the concrete environment whose hash function is the identity: the five blind
  ids are distinct, and the two files invert the redaction.
\<close>

theorem C1_blind_key_inverse_witness:
  "distinct (map blind_id (results_file (projr (run_experiment (demo_world (\<lambda>s. s) digits) 1 []))))
   \<and> blind_key_inverse
        (results_file (projr (run_experiment (demo_world (\<lambda>s. s) digits) 1 [])))
        (blind_eval_file (projr (run_experiment (demo_world (\<lambda>s. s) digits) 1 [])))
        (key_file (projr (run_experiment (demo_world (\<lambda>s. s) digits) 1 [])))"
proof -
  let ?w = "demo_world (\<lambda>s. s) digits"
  obtain out where out: "run_experiment ?w 1 [] = Inr out"
    by (simp add: run_experiment_eq)
  have r: "results_file out = results_of ?w 1 []"
    using out by (rule run_experiment_fields)
  have d: "distinct (map blind_id (results_file out))"
    unfolding r demo_results by (simp add: digits_def)
  from C1_blind_key_inverse[OF out d] d out show ?thesis by simp
qed

text \<open>
  C1 as stated, for every run, fails. In this run the clock and the random number
  generator give the five trials texts of which the first two have SHA-256 digests with
  the same first twelve characters (3cded723ab89), so the first two trials share a blind
  id. The key file keeps the condition of the second trial for it; the blind entry of the
  first trial (failed, no completion) with that condition attached is no result: the
  only result with that condition passed and has a completion.
\<close>

theorem C1_collision_counterexample:
  "\<not> isl (run_experiment (demo_world sha256_table observed) 1 [])
   \<and> \<not> blind_key_inverse
        (results_file (projr (run_experiment (demo_world sha256_table observed) 1 [])))
        (blind_eval_file (projr (run_experiment (demo_world sha256_table observed) 1 [])))
        (key_file (projr (run_experiment (demo_world sha256_table observed) 1 [])))"
  using collision_not_inverse[of "[]"] by (simp add: run_experiment_eq)

section \<open>The trial orchestrator: the executed trials\<close>

text \<open>
  C2. For every trial count \<open>n \<ge> 0\<close> (and every problem mapping, empty or not), the run
  returns from its loop, and the sequence of trials it executes is a permutation of the
  cross product of the problems, the conditions and the repetition indices below \<open>n\<close>:
  every pair of a problem and a condition occurs exactly \<open>n\<close> times, and the number of
  trials executed, which is the number of results produced, is the number of problems
  times the number of conditions times \<open>n\<close>.
\<close>

theorem C2_trials_cross_product:
  assumes "0 \<le> n"
  shows "\<exists>out. run_experiment w n mdl = Inr out
     \<and> mset (executed out) =
         mset (map (\<lambda>(pid, c, k). (pid, c))
                 (List.product (map fst (problems_of w)) (List.product CONDITIONS [0..<nat n])))
     \<and> (\<forall>pid\<in>set (map fst (problems_of w)). \<forall>c\<in>set CONDITIONS.
           int (count_list (executed out) (pid, c)) = n)
     \<and> int (length (executed out)) = int (length (problems_of w)) * int (length CONDITIONS) * n
     \<and> length (results_file out) = length (executed out)"
proof -
  have perm: "mset (trials_of w n) =
         mset (map (\<lambda>(pid, c, k). (pid, c))
                 (List.product (map fst (problems_of w)) (List.product CONDITIONS [0..<nat n])))"
    by (simp add: trials_of_def mset_shuffle all_trials_product)
  have cnt: "\<forall>pid\<in>set (map fst (problems_of w)). \<forall>c\<in>set CONDITIONS.
           int (count_list (trials_of w n) (pid, c)) = n"
    using assms
    by (simp add: trials_of_def count_list_shuffle problems_of_def count_all_trials)
  have len: "int (length (trials_of w n))
             = int (length (problems_of w)) * int (length CONDITIONS) * n"
    using assms by (simp add: trials_of_def length_shuffle length_all_trials)
  show ?thesis
    using perm cnt len by (simp add: run_experiment_eq length_results_of)
qed

text \<open>
  C2 in the concrete environment with one trial per pair: five trials are executed,
  the pair of the problem and the third condition occurs once, and five results are
  produced.
\<close>

theorem C2_trials_cross_product_witness:
  "(0::int) \<le> 1
   \<and> length (executed (projr (run_experiment (demo_world (\<lambda>s. s) digits) 1 []))) = 5
   \<and> count_list (executed (projr (run_experiment (demo_world (\<lambda>s. s) digits) 1 [])))
        (ascii ''HumanEval/2'', CONDITIONS ! 2) = 1
   \<and> length (results_file (projr (run_experiment (demo_world (\<lambda>s. s) digits) 1 []))) = 5"
proof -
  have h: "(0::int) \<le> 1" by simp
  from C2_trials_cross_product[OF h, of "demo_world (\<lambda>s. s) digits" "[]"]
  obtain out where out: "run_experiment (demo_world (\<lambda>s. s) digits) 1 [] = Inr out"
    and cnt: "\<forall>pid\<in>set (map fst (problems_of (demo_world (\<lambda>s. s) digits))). \<forall>c\<in>set CONDITIONS.
           int (count_list (executed out) (pid, c)) = 1"
    and len: "int (length (executed out))
              = int (length (problems_of (demo_world (\<lambda>s. s) digits))) * int (length CONDITIONS) * 1"
    and res: "length (results_file out) = length (executed out)"
    by blast
  have c2: "CONDITIONS ! 2 \<in> set CONDITIONS" by (simp add: CONDITIONS_def)
  have "int (count_list (executed out) (ascii ''HumanEval/2'', CONDITIONS ! 2)) = 1"
    using cnt c2 by (simp add: demo_problems)
  moreover have "length (executed out) = 5"
    using len by (simp add: demo_problems length_CONDITIONS)
  ultimately show ?thesis using out res by simp
qed

section \<open>The correctness checker: results and escaping exceptions\<close>

text \<open>
  C3 (as amended). An exception raised while the temporary file is written, or by
  \<open>os.unlink\<close> in the \<open>finally\<close> clause, escapes to the caller. When both succeed,
  \<open>check_correctness\<close> returns (true, no error) on exit status zero; (false, the first 500
  characters of the standard error) on a nonzero status; (false, ``Timeout'') when the
  timeout elapses; (false, the first 500 characters of the exception text) when the launch
  fails otherwise; so it returns a pair whose error text has at most 500 characters.
\<close>

theorem C3_check_correctness:
  "(\<forall>e. write_temp os (full_code p c t ep) = Inl e \<longrightarrow>
        check_correctness os p c t ep tmo = Inl e)
   \<and> (\<forall>path e. write_temp os (full_code p c t ep) = Inr path \<and> unlink os path = Some e \<longrightarrow>
        check_correctness os p c t ep tmo = Inl e)
   \<and> (\<forall>path. write_temp os (full_code p c t ep) = Inr path \<and> unlink os path = None \<longrightarrow>
        (\<forall>err. run_python os path (full_code p c t ep) tmo = Inr (0, err) \<longrightarrow>
           check_correctness os p c t ep tmo = Inr (True, None))
      \<and> (\<forall>rc err. run_python os path (full_code p c t ep) tmo = Inr (rc, err) \<and> rc \<noteq> 0 \<longrightarrow>
           check_correctness os p c t ep tmo = Inr (False, Some (take 500 err)))
      \<and> (\<forall>e. run_python os path (full_code p c t ep) tmo = Inl e \<and> kind e = TimeoutExpired \<longrightarrow>
           check_correctness os p c t ep tmo = Inr (False, Some (ascii ''Timeout'')))
      \<and> (\<forall>e. run_python os path (full_code p c t ep) tmo = Inl e \<and> kind e \<noteq> TimeoutExpired \<longrightarrow>
           check_correctness os p c t ep tmo = Inr (False, Some (take 500 (str e))))
      \<and> (\<exists>ok err. check_correctness os p c t ep tmo = Inr (ok, err)
            \<and> (case err of None \<Rightarrow> ok | Some m \<Rightarrow> \<not> ok \<and> length m \<le> 500)))"
proof -
  have len: "length (ascii ''Timeout'') \<le> 500" by (simp add: ascii_def)
  show ?thesis
    using len
    by (auto simp: check_correctness_def verdict_def Let_def split: sum.splits prod.splits)
qed

text \<open>
  The four cases of C3 on the operating system \<open>strict_os\<close>, where the temporary file of this program
  is written and removed: exit status zero, exit status one with 600 characters of
  standard error, a timeout, and a launch failure with 501 characters of text.
\<close>

theorem C3_check_correctness_witness:
  "write_temp (strict_os (Inr (0, []))) (full_code (ascii ''def f():'') (ascii '' pass'') (ascii ''t'') (ascii ''f''))
     = Inr (ascii ''/tmp/tmp0.py'')
   \<and> unlink (strict_os (Inr (0, []))) (ascii ''/tmp/tmp0.py'') = None
   \<and> check_correctness (strict_os (Inr (0, [])))
         (ascii ''def f():'') (ascii '' pass'') (ascii ''t'') (ascii ''f'') 5 = Inr (True, None)
   \<and> check_correctness (strict_os (Inr (1, replicate 600 97)))
         (ascii ''def f():'') (ascii '' pass'') (ascii ''t'') (ascii ''f'') 5
       = Inr (False, Some (replicate 500 97))
   \<and> check_correctness (strict_os (Inl (Exception TimeoutExpired (ascii ''timed out''))))
         (ascii ''def f():'') (ascii '' pass'') (ascii ''t'') (ascii ''f'') 5
       = Inr (False, Some (ascii ''Timeout''))
   \<and> check_correctness (strict_os (Inl (Exception OSError (replicate 501 98))))
         (ascii ''def f():'') (ascii '' pass'') (ascii ''t'') (ascii ''f'') 5
       = Inr (False, Some (replicate 500 98))"
proof -
  let ?code = "full_code (ascii ''def f():'') (ascii '' pass'') (ascii ''t'') (ascii ''f'')"
  let ?path = "ascii ''/tmp/tmp0.py''"
  have w: "write_temp (strict_os out) ?code = Inr ?path" for out
    by (simp add: strict_os_def full_code_def ascii_def)
  have u: "unlink (strict_os out) ?path = None" for out
    by (simp add: strict_os_def)
  have r: "run_python (strict_os out) ?path ?code 5 = out" for out
    by (simp add: strict_os_def)
  have k: "kind (Exception TimeoutExpired (ascii ''timed out'')) = TimeoutExpired"
    "kind (Exception OSError (replicate 501 98)) \<noteq> TimeoutExpired"
    "str (Exception OSError (replicate 501 98)) = replicate 501 98"
    by simp_all
  have c1: "check_correctness (strict_os (Inr (0, [])))
         (ascii ''def f():'') (ascii '' pass'') (ascii ''t'') (ascii ''f'') 5 = Inr (True, None)"
    using C3_check_correctness[of "strict_os (Inr (0, []))" "ascii ''def f():''" "ascii '' pass''"
        "ascii ''t''" "ascii ''f''" 5] w u r by blast
  have c2: "check_correctness (strict_os (Inr (1, replicate 600 97)))
         (ascii ''def f():'') (ascii '' pass'') (ascii ''t'') (ascii ''f'') 5
       = Inr (False, Some (take 500 (replicate 600 97)))"
    using C3_check_correctness[of "strict_os (Inr (1, replicate 600 97))" "ascii ''def f():''"
        "ascii '' pass''" "ascii ''t''" "ascii ''f''" 5] w u r
    by (metis zero_neq_one)
  have c3: "check_correctness (strict_os (Inl (Exception TimeoutExpired (ascii ''timed out''))))
         (ascii ''def f():'') (ascii '' pass'') (ascii ''t'') (ascii ''f'') 5
       = Inr (False, Some (ascii ''Timeout''))"
    using C3_check_correctness[of "strict_os (Inl (Exception TimeoutExpired (ascii ''timed out'')))"
        "ascii ''def f():''" "ascii '' pass''" "ascii ''t''" "ascii ''f''" 5] w u r k(1)
    by blast
  have c4: "check_correctness (strict_os (Inl (Exception OSError (replicate 501 98))))
         (ascii ''def f():'') (ascii '' pass'') (ascii ''t'') (ascii ''f'') 5
       = Inr (False, Some (take 500 (replicate 501 98)))"
    using C3_check_correctness[of "strict_os (Inl (Exception OSError (replicate 501 98)))"
        "ascii ''def f():''" "ascii '' pass''" "ascii ''t''" "ascii ''f''" 5] w u r k(2,3)
    by metis
  show ?thesis using w u c1 c2 c3 c4 by simp
qed

text \<open>
  C3 as stated fails in its last part: a completion that holds a lone surrogate code
  point cannot be written to the temporary file, and the exception of the write, which
  stands before the \<open>try\<close> statement, leaves \<open>check_correctness\<close>.
\<close>

theorem C3_escape_counterexample:
  "check_correctness (strict_os (Inr (0, []))) (ascii ''def f():'') [55296] (ascii ''t'')
     (ascii ''f'') 5
   = Inl (Exception UnicodeEncodeError (ascii ''surrogates not allowed''))"
  by (simp add: check_correctness_def strict_os_def full_code_def)

section \<open>The trial orchestrator: a failing trial is recorded\<close>

text \<open>
  C4. The loop of a run never aborts: it produces exactly one result for each executed
  trial, in the order of execution, for the problem and the condition of that trial. If
  the generation raises for the trial, or if it returns and the correctness check
  raises, the result recorded for the trial has the empty completion, \<open>passed\<close> false and
  the error text ``Generation error: '' followed by the text of the exception; the
  trials after it are executed all the same.
\<close>

theorem C4_failing_trial_recorded:
  "\<exists>out. run_experiment w n mdl = Inr out
     \<and> length (results_file out) = length (executed out)
     \<and> (\<forall>i<length (executed out).
          \<exists>p. map_of (problems_of w) (fst (executed out ! i)) = Some p
            \<and> problem_id (results_file out ! i) = fst (executed out ! i)
            \<and> condition (results_file out ! i) = name (snd (executed out ! i))
            \<and> (\<forall>e. generate_completion (service (trial_env w i)) (problem.prompt p)
                       (snd (executed out ! i)) mdl = Inl e \<longrightarrow>
                   completion (results_file out ! i) = []
                   \<and> \<not> passed (results_file out ! i)
                   \<and> error (results_file out ! i)
                       = Some (ascii ''Generation error: '' @ str e))
            \<and> (\<forall>text e. generate_completion (service (trial_env w i)) (problem.prompt p)
                            (snd (executed out ! i)) mdl = Inr text
                          \<and> check_correctness (checker_os (trial_env w i)) (problem.prompt p)
                              text (problem.test p) (problem.entry_point p) 5 = Inl e \<longrightarrow>
                   completion (results_file out ! i) = []
                   \<and> \<not> passed (results_file out ! i)
                   \<and> error (results_file out ! i)
                       = Some (ascii ''Generation error: '' @ str e)))"
proof -
  have "\<exists>p. map_of (problems_of w) (fst (trials_of w n ! i)) = Some p
            \<and> problem_id (results_of w n mdl ! i) = fst (trials_of w n ! i)
            \<and> condition (results_of w n mdl ! i) = name (snd (trials_of w n ! i))
            \<and> (\<forall>e. generate_completion (service (trial_env w i)) (problem.prompt p)
                       (snd (trials_of w n ! i)) mdl = Inl e \<longrightarrow>
                   completion (results_of w n mdl ! i) = []
                   \<and> \<not> passed (results_of w n mdl ! i)
                   \<and> error (results_of w n mdl ! i)
                       = Some (ascii ''Generation error: '' @ str e))
            \<and> (\<forall>text e. generate_completion (service (trial_env w i)) (problem.prompt p)
                            (snd (trials_of w n ! i)) mdl = Inr text
                          \<and> check_correctness (checker_os (trial_env w i)) (problem.prompt p)
                              text (problem.test p) (problem.entry_point p) 5 = Inl e \<longrightarrow>
                   completion (results_of w n mdl ! i) = []
                   \<and> \<not> passed (results_of w n mdl ! i)
                   \<and> error (results_of w n mdl ! i)
                       = Some (ascii ''Generation error: '' @ str e))"
    if i: "i < length (trials_of w n)" for i
  proof -
    let ?t = "trials_of w n ! i"
    let ?r = "results_of w n mdl ! i"
    from i have "?t \<in> set (trials_of w n)" by simp
    then obtain p where p: "map_of (problems_of w) (fst ?t) = Some p"
      using trials_have_problems by blast
    have r: "?r = fst (outcome_at w (problems_of w) mdl i ?t)"
      using i by (rule results_of_nth)
    have a: "(completion ?r, passed ?r, error ?r) = attempt (trial_env w i) p (snd ?t) mdl"
      unfolding r outcome_result_fields(4) by (simp add: p)
    have f1: "completion ?r = [] \<and> \<not> passed ?r
              \<and> error ?r = Some (ascii ''Generation error: '' @ str e)"
      if "generate_completion (service (trial_env w i)) (problem.prompt p) (snd ?t) mdl = Inl e"
      for e
      using a that by (simp add: attempt_def)
    have f2: "completion ?r = [] \<and> \<not> passed ?r
              \<and> error ?r = Some (ascii ''Generation error: '' @ str e)"
      if "generate_completion (service (trial_env w i)) (problem.prompt p) (snd ?t) mdl = Inr code
          \<and> check_correctness (checker_os (trial_env w i)) (problem.prompt p)
              code (problem.test p) (problem.entry_point p) 5 = Inl e"
      for code e
      using a that by (simp add: attempt_def)
    have g: "problem_id ?r = fst ?t" "condition ?r = name (snd ?t)"
      by (simp_all add: r outcome_result_fields(1,2))
    show ?thesis
      using p g f1 f2 by blast
  qed
  then show ?thesis
    by (simp add: run_experiment_eq length_results_of)
qed

text \<open>
  C4 in the concrete environment: the first executed trial finds the service failing
  and the third has a completion that the checker cannot write; both are recorded as
  failures, and all five trials have a result.
\<close>

theorem C4_failing_trial_recorded_witness:
  "length (results_file (projr (run_experiment (demo_world (\<lambda>s. s) digits) 1 []))) = 5
   \<and> completion (results_file (projr (run_experiment (demo_world (\<lambda>s. s) digits) 1 [])) ! 0) = []
   \<and> passed (results_file (projr (run_experiment (demo_world (\<lambda>s. s) digits) 1 [])) ! 0) = False
   \<and> error (results_file (projr (run_experiment (demo_world (\<lambda>s. s) digits) 1 [])) ! 0)
       = Some (ascii ''Generation error: '' @ full_prompt (ascii ''def f():'') (CONDITIONS ! 1))
   \<and> completion (results_file (projr (run_experiment (demo_world (\<lambda>s. s) digits) 1 [])) ! 2) = []
   \<and> passed (results_file (projr (run_experiment (demo_world (\<lambda>s. s) digits) 1 [])) ! 2) = False
   \<and> error (results_file (projr (run_experiment (demo_world (\<lambda>s. s) digits) 1 [])) ! 2)
       = Some (ascii ''Generation error: '' @ ascii ''surrogates not allowed'')"
proof -
  let ?w = "demo_world (\<lambda>s. s) digits"
  from C4_failing_trial_recorded[of ?w 1 "[]"]
  obtain out where out: "run_experiment ?w 1 [] = Inr out"
    and len: "length (results_file out) = length (executed out)"
    and each: "\<And>i. i < length (executed out) \<Longrightarrow>
          \<exists>p. map_of (problems_of ?w) (fst (executed out ! i)) = Some p
            \<and> (\<forall>e. generate_completion (service (trial_env ?w i)) (problem.prompt p)
                       (snd (executed out ! i)) [] = Inl e \<longrightarrow>
                   completion (results_file out ! i) = []
                   \<and> \<not> passed (results_file out ! i)
                   \<and> error (results_file out ! i)
                       = Some (ascii ''Generation error: '' @ str e))
            \<and> (\<forall>code e. generate_completion (service (trial_env ?w i)) (problem.prompt p)
                            (snd (executed out ! i)) [] = Inr code
                          \<and> check_correctness (checker_os (trial_env ?w i)) (problem.prompt p)
                              code (problem.test p) (problem.entry_point p) 5 = Inl e \<longrightarrow>
                   completion (results_file out ! i) = []
                   \<and> \<not> passed (results_file out ! i)
                   \<and> error (results_file out ! i)
                       = Some (ascii ''Generation error: '' @ str e))"
    by blast
  have ex: "executed out = trials_of ?w 1"
    using out by (simp add: run_experiment_fields)
  have l5: "length (executed out) = 5" by (simp add: ex demo_trials)
  have "0 < length (executed out)" using l5 by simp
  from each[OF this] obtain p0 where
    p0: "map_of (problems_of ?w) (fst (executed out ! 0)) = Some p0"
    and g0: "\<And>e. generate_completion (service (trial_env ?w 0)) (problem.prompt p0)
                       (snd (executed out ! 0)) [] = Inl e \<Longrightarrow>
                   completion (results_file out ! 0) = []
                   \<and> \<not> passed (results_file out ! 0)
                   \<and> error (results_file out ! 0)
                       = Some (ascii ''Generation error: '' @ str e)"
    by blast
  have "p0 = demo_problem" using p0 by (simp add: ex demo_trials demo_problems)
  then have r0: "completion (results_file out ! 0) = []
                   \<and> \<not> passed (results_file out ! 0)
                   \<and> error (results_file out ! 0)
                       = Some (ascii ''Generation error: ''
                               @ full_prompt (ascii ''def f():'') (CONDITIONS ! 1))"
    using g0[OF demo_generate_fail[of 0]] by (simp add: ex demo_trials demo_problem_def)
  have "2 < length (executed out)" using l5 by simp
  from each[OF this] obtain p2 where
    p2: "map_of (problems_of ?w) (fst (executed out ! 2)) = Some p2"
    and g2: "\<And>code e. generate_completion (service (trial_env ?w 2)) (problem.prompt p2)
                            (snd (executed out ! 2)) [] = Inr code
                          \<and> check_correctness (checker_os (trial_env ?w 2)) (problem.prompt p2)
                              code (problem.test p2) (problem.entry_point p2) 5 = Inl e \<Longrightarrow>
                   completion (results_file out ! 2) = []
                   \<and> \<not> passed (results_file out ! 2)
                   \<and> error (results_file out ! 2)
                       = Some (ascii ''Generation error: '' @ str e)"
    by blast
  have "p2 = demo_problem" using p2 by (simp add: ex demo_trials demo_problems)
  then have r2: "completion (results_file out ! 2) = []
                   \<and> \<not> passed (results_file out ! 2)
                   \<and> error (results_file out ! 2)
                       = Some (ascii ''Generation error: '' @ ascii ''surrogates not allowed'')"
    using g2[of "[55296]" "Exception UnicodeEncodeError (ascii ''surrogates not allowed'')"]
      demo_generate_surrogate[of 2 "\<lambda>s. s" digits] demo_check_surrogate[of "\<lambda>s. s" digits 2]
    by simp
  show ?thesis using out len l5 r0 r2 by simp
qed

section \<open>The scoring session: only validated scores are recorded\<close>

text \<open>
  C5. Every score record that a session creates (every entry of the scores it writes
  or returns that the store did not hold at the start) has its five dimension values in
  the range from 1 to 5 and their sum as its total. For an answer that is neither the
  quit nor the skip command: if some token is not an integer literal, or the number of
  values is not five, or a value lies outside the range, the answer is rejected with the
  message of that failure and the next line is asked for, with the score store unchanged;
  only five values in the range are recorded, as a valid record.
\<close>

theorem C5_only_valid_scores_recorded:
  "(\<forall>final bid sd.
       (written (evaluate_interactively lib data existing inputs) = Some final
        \<or> returned_scores (evaluate_interactively lib data existing inputs) = Inr final)
       \<and> map_of final bid = Some sd
       \<and> map_of (case existing of None \<Rightarrow> [] | Some s \<Rightarrow> s) bid \<noteq> Some sd
       \<longrightarrow> valid_score sd)
   \<and> (str_lower lib (py_strip line) \<noteq> ascii ''q'' \<and> str_lower lib (py_strip line) \<noteq> ascii ''s''
       \<longrightarrow>
       ((\<exists>x\<in>set (py_split (str_lower lib (py_strip line)) (ascii '','')).
            int_parse lib (py_strip x) = None)
          \<longrightarrow> ask lib b scores (line # rest) out
               = ask lib b scores rest (out @ [Prompt b, Invalid_format]))
       \<and> (\<forall>parts. parse_parts lib (str_lower lib (py_strip line)) = Some parts
              \<and> length parts \<noteq> 5
          \<longrightarrow> ask lib b scores (line # rest) out
               = ask lib b scores rest (out @ [Prompt b, Need_exactly_5]))
       \<and> (\<forall>parts. parse_parts lib (str_lower lib (py_strip line)) = Some parts
              \<and> length parts = 5 \<and> (\<exists>v\<in>set parts. v < 1 \<or> 5 < v)
          \<longrightarrow> ask lib b scores (line # rest) out
               = ask lib b scores rest (out @ [Prompt b, Scores_must_be_1_5]))
       \<and> (\<forall>parts. parse_parts lib (str_lower lib (py_strip line)) = Some parts
              \<and> length parts = 5 \<and> (\<forall>v\<in>set parts. 1 \<le> v \<and> v \<le> 5)
          \<longrightarrow> ask lib b scores (line # rest) out
               = (out @ [Prompt b, Recorded parts (sum_list parts)],
                  Continue (AList.update b (make_score parts) scores) rest)
              \<and> valid_score (make_score parts)))"
proof -
  let ?s0 = "case existing of None \<Rightarrow> [] | Some s \<Rightarrow> s"
  let ?res = "evaluate_interactively lib data existing inputs"
  have ext: "(\<forall>final. written ?res = Some final \<longrightarrow> extends ?s0 final)
             \<and> (\<forall>final. returned_scores ?res = Inr final \<longrightarrow> extends ?s0 final)"
  proof (cases existing)
    case None
    have "(\<forall>final. written (score_loop lib data [] inputs []) = Some final \<longrightarrow> extends [] final)
          \<and> (\<forall>final. returned_scores (score_loop lib data [] inputs []) = Inr final
                \<longrightarrow> extends [] final)"
      using extends_refl by (rule score_loop_extends)
    then show ?thesis by (simp add: None evaluate_interactively_def)
  next
    case (Some s)
    have "(\<forall>final. written (score_loop lib data s inputs [Loaded (length s)]) = Some final
              \<longrightarrow> extends s final)
          \<and> (\<forall>final. returned_scores (score_loop lib data s inputs [Loaded (length s)]) = Inr final
                \<longrightarrow> extends s final)"
      using extends_refl by (rule score_loop_extends)
    then show ?thesis by (simp add: Some evaluate_interactively_def)
  qed
  have A: "\<forall>final bid sd.
       (written ?res = Some final \<or> returned_scores ?res = Inr final)
       \<and> map_of final bid = Some sd \<and> map_of ?s0 bid \<noteq> Some sd
       \<longrightarrow> valid_score sd"
    using ext unfolding extends_def by blast
  have B: "((\<exists>x\<in>set (py_split (str_lower lib (py_strip line)) (ascii '','')).
            int_parse lib (py_strip x) = None)
          \<longrightarrow> ask lib b scores (line # rest) out
               = ask lib b scores rest (out @ [Prompt b, Invalid_format]))
       \<and> (\<forall>parts. parse_parts lib (str_lower lib (py_strip line)) = Some parts
              \<and> length parts \<noteq> 5
          \<longrightarrow> ask lib b scores (line # rest) out
               = ask lib b scores rest (out @ [Prompt b, Need_exactly_5]))
       \<and> (\<forall>parts. parse_parts lib (str_lower lib (py_strip line)) = Some parts
              \<and> length parts = 5 \<and> (\<exists>v\<in>set parts. v < 1 \<or> 5 < v)
          \<longrightarrow> ask lib b scores (line # rest) out
               = ask lib b scores rest (out @ [Prompt b, Scores_must_be_1_5]))
       \<and> (\<forall>parts. parse_parts lib (str_lower lib (py_strip line)) = Some parts
              \<and> length parts = 5 \<and> (\<forall>v\<in>set parts. 1 \<le> v \<and> v \<le> 5)
          \<longrightarrow> ask lib b scores (line # rest) out
               = (out @ [Prompt b, Recorded parts (sum_list parts)],
                  Continue (AList.update b (make_score parts) scores) rest)
              \<and> valid_score (make_score parts))"
    if n: "str_lower lib (py_strip line) \<noteq> ascii ''q''"
      "str_lower lib (py_strip line) \<noteq> ascii ''s''"
  proof -
    let ?r = "str_lower lib (py_strip line)"
    have b1: "ask lib b scores (line # rest) out
               = ask lib b scores rest (out @ [Prompt b, Invalid_format])"
      if "\<exists>x\<in>set (py_split ?r (ascii '','')). int_parse lib (py_strip x) = None"
    proof -
      from that have "parse_parts lib ?r = None"
        unfolding parse_parts_def those_None_iff by simp
      with n show ?thesis by (rule ask_rejects(1))
    qed
    have b2: "ask lib b scores (line # rest) out
               = ask lib b scores rest (out @ [Prompt b, Need_exactly_5])"
      if "parse_parts lib ?r = Some parts \<and> length parts \<noteq> 5" for parts
      using ask_rejects(2)[OF n] that by blast
    have b3: "ask lib b scores (line # rest) out
               = ask lib b scores rest (out @ [Prompt b, Scores_must_be_1_5])"
      if "parse_parts lib ?r = Some parts \<and> length parts = 5 \<and> (\<exists>v\<in>set parts. v < 1 \<or> 5 < v)"
      for parts
    proof -
      from that obtain v where "v \<in> set parts" "v < 1 \<or> 5 < v" by blast
      then have "\<not> in_range v" by (auto simp: in_range_def)
      with \<open>v \<in> set parts\<close> have "\<not> list_all in_range parts"
        unfolding list_all_iff by blast
      with ask_rejects(3)[OF n] that show ?thesis by blast
    qed
    have b4: "ask lib b scores (line # rest) out
               = (out @ [Prompt b, Recorded parts (sum_list parts)],
                  Continue (AList.update b (make_score parts) scores) rest)
              \<and> valid_score (make_score parts)"
      if "parse_parts lib ?r = Some parts \<and> length parts = 5
          \<and> (\<forall>v\<in>set parts. 1 \<le> v \<and> v \<le> 5)" for parts
    proof -
      from that have r: "list_all in_range parts" by (simp add: list_all_iff in_range_def)
      with that n make_score_valid[of parts] show ?thesis by (simp add: Let_def)
    qed
    show ?thesis using b1 b2 b3 b4 by blast
  qed
  show ?thesis using A B by blast
qed

text \<open>
  C5 on a session over one sample: the answers ``1,2'', ``x,1,1,1,1'' and ``1,2,3,4,6''
  are rejected and asked again, the answer `` 1, 2,3,4,5 '' is recorded, and the record
  written for the sample is valid.
\<close>

theorem C5_only_valid_scores_recorded_witness:
  "written (evaluate_interactively ascii_builtins [sample (ascii ''def456'')] None
              [ascii ''1,2'', ascii ''x,1,1,1,1'', ascii ''1,2,3,4,6'', ascii '' 1, 2,3,4,5 ''])
     = Some [(ascii ''def456'', make_score [1, 2, 3, 4, 5])]
   \<and> valid_score (make_score [1, 2, 3, 4, 5])
   \<and> ask ascii_builtins (ascii ''def456'') [] [ascii ''1,2''] []
       = ask ascii_builtins (ascii ''def456'') [] [] [Prompt (ascii ''def456''), Need_exactly_5]
   \<and> ask ascii_builtins (ascii ''def456'') [] [ascii ''x,1,1,1,1''] []
       = ask ascii_builtins (ascii ''def456'') [] [] [Prompt (ascii ''def456''), Invalid_format]
   \<and> ask ascii_builtins (ascii ''def456'') [] [ascii ''1,2,3,4,6''] []
       = ask ascii_builtins (ascii ''def456'') [] []
           [Prompt (ascii ''def456''), Scores_must_be_1_5]
   \<and> ask ascii_builtins (ascii ''def456'') [] [ascii '' 1, 2,3,4,5 ''] []
       = ([Prompt (ascii ''def456''), Recorded [1, 2, 3, 4, 5] 15],
          Continue [(ascii ''def456'', make_score [1, 2, 3, 4, 5])] [])"
proof -
  let ?d = "ascii ''def456''"
  let ?data = "[sample ?d]"
  let ?inputs = "[ascii ''1,2'', ascii ''x,1,1,1,1'', ascii ''1,2,3,4,6'', ascii '' 1, 2,3,4,5 '']"
  note T = C5_only_valid_scores_recorded[where lib = ascii_builtins and data = ?data
      and existing = None and inputs = ?inputs and b = ?d and scores = "[]" and rest = "[]"
      and out = "[]"]
  have w: "written (evaluate_interactively ascii_builtins ?data None ?inputs)
           = Some [(?d, make_score [1, 2, 3, 4, 5])]"
    by (simp add: fresh_session)
  have "map_of [(?d, make_score [1, 2, 3, 4, 5])] ?d = Some (make_score [1, 2, 3, 4, 5])"
    by simp
  with T[where line = "[]"] w have v: "valid_score (make_score [1, 2, 3, 4, 5])"
    by (metis list.simps(4) map_of.simps(1) option.distinct(1) option.simps(4))
  have t1: "ask ascii_builtins ?d [] [ascii ''1,2''] []
       = ask ascii_builtins ?d [] [] [Prompt ?d, Need_exactly_5]"
    using T[where line = "ascii ''1,2''"] lowered(1) parsed(1) not_control(1,2) by simp
  have "\<exists>x\<in>set (py_split (ascii ''x,1,1,1,1'') (ascii '','')).
          int_parse ascii_builtins (py_strip x) = None"
    using parsed(2) unfolding parse_parts_def those_None_iff .
  then have t2: "ask ascii_builtins ?d [] [ascii ''x,1,1,1,1''] []
       = ask ascii_builtins ?d [] [] [Prompt ?d, Invalid_format]"
    using T[where line = "ascii ''x,1,1,1,1''"] lowered(2) not_control(3,4) by simp
  have t3: "ask ascii_builtins ?d [] [ascii ''1,2,3,4,6''] []
       = ask ascii_builtins ?d [] [] [Prompt ?d, Scores_must_be_1_5]"
    using T[where line = "ascii ''1,2,3,4,6''"] lowered(3) parsed(3) not_control(5,6) by simp
  have t4: "ask ascii_builtins ?d [] [ascii '' 1, 2,3,4,5 ''] []
       = ([Prompt ?d, Recorded [1, 2, 3, 4, 5] 15],
          Continue [(?d, make_score [1, 2, 3, 4, 5])] [])"
    using T[where line = "ascii '' 1, 2,3,4,5 ''"] lowered(4) parsed(4) not_control(7,8) by simp
  show ?thesis using w v t1 t2 t3 t4 by simp
qed

section \<open>The completion generator: the request text\<close>

text \<open>
  C6 (as amended). For every problem prompt and condition, the text that
  \<open>generate_completion\<close> submits to the generation service is the prefix of the condition,
  then the literal text ``Complete the following Python function:'' and two newlines,
  then the prompt, then the suffix of the condition. The first part runs the function
  against the service that reports the message it was sent; the second says that the
  result depends on the service only through its answer to that one request.
\<close>

theorem C6_request_text:
  "generate_completion echo p c mdl =
     Inl (Exception APIError
            (prefix c @ ascii ''Complete the following Python function:'' @ [10, 10]
             @ p @ suffix c))
   \<and> generate_completion client p c mdl =
       generate_completion
         (\<lambda>r. client \<lparr>model = mdl, max_tokens = 1024,
                       messages = [(ascii ''user'',
                                    prefix c @ ascii ''Complete the following Python function:''
                                    @ [10, 10] @ p @ suffix c)],
                       temperature = 7 / 10\<rparr>) p c mdl"
  by (simp add: generate_completion_def echo_def full_prompt_def)

text \<open>
  C6 as stated, with the literal text ``Complete the following function:'', fails: for the
  empty prompt and the control condition the submitted text is another one.
\<close>

theorem C6_literal_counterexample:
  "generate_completion echo [] (CONDITIONS ! 0) [] \<noteq>
     Inl (Exception APIError
            (prefix (CONDITIONS ! 0) @ ascii ''Complete the following function:'' @ [10, 10]
             @ [] @ suffix (CONDITIONS ! 0)))"
  by (simp add: generate_completion_def echo_def full_prompt_def CONDITIONS_def ascii_def)

section \<open>The scoring session: existing scores are kept\<close>

text \<open>
  C7. For every session started over a blind-eval set and an existing score store, and
  for every blind id that the store holds at the start: the session never shows the
  sample of that blind id and never prompts for it, and the record under that blind id
  in the file that the session writes (when it quits or completes), as in the scores it
  returns, is the record loaded at the start.
\<close>

theorem C7_existing_scores_kept:
  assumes "map_of scores0 b = Some sd"
  shows "Prompt b \<notin> set (transcript (evaluate_interactively lib data (Some scores0) inputs))
     \<and> (\<forall>it. Sample it \<in> set (transcript (evaluate_interactively lib data (Some scores0) inputs))
            \<longrightarrow> blind_entry.blind_id it \<noteq> b)
     \<and> (\<forall>final. written (evaluate_interactively lib data (Some scores0) inputs) = Some final
            \<longrightarrow> map_of final b = Some sd)
     \<and> (\<forall>final. returned_scores (evaluate_interactively lib data (Some scores0) inputs) = Inr final
            \<longrightarrow> map_of final b = Some sd)"
proof -
  let ?res = "score_loop lib data scores0 inputs [Loaded (length scores0)]"
  from assms have "map_of scores0 b \<noteq> None" by simp
  then have "\<forall>e\<in>set (transcript ?res). presents e b \<longrightarrow> e \<in> set [Loaded (length scores0)]"
    by (rule score_loop_presents)
  then have np: "\<forall>e\<in>set (transcript ?res). \<not> presents e b" by auto
  have p1: "Prompt b \<notin> set (transcript ?res)" using np by force
  have p2: "\<forall>it. Sample it \<in> set (transcript ?res) \<longrightarrow> blind_entry.blind_id it \<noteq> b"
    using np by force
  have "(\<forall>final. written ?res = Some final \<longrightarrow> extends scores0 final)
        \<and> (\<forall>final. returned_scores ?res = Inr final \<longrightarrow> extends scores0 final)"
    using extends_refl by (rule score_loop_extends)
  then have "(\<forall>final. written ?res = Some final \<longrightarrow> map_of final b = Some sd)
        \<and> (\<forall>final. returned_scores ?res = Inr final \<longrightarrow> map_of final b = Some sd)"
    using assms unfolding extends_def by blast
  with p1 p2 show ?thesis by (simp add: evaluate_interactively_def)
qed

text \<open>
  C7 on a store that holds the blind id abc123 and a blind-eval set of abc123 and def456:
  the session skips abc123, scores def456, and writes a file in which the record of
  abc123 is the stored one.
\<close>

theorem C7_existing_scores_kept_witness:
  "map_of stored (ascii ''abc123'')
     = Some \<lparr>edge_cases = 3, error_handling = 2, idiomaticity = 4, documentation = 3,
             ship_it = 3, total = 15\<rparr>
   \<and> Prompt (ascii ''abc123'')
       \<notin> set (transcript (evaluate_interactively ascii_builtins
                  [sample (ascii ''abc123''), sample (ascii ''def456'')] (Some stored)
                  [ascii '' 1, 2,3,4,5 '']))
   \<and> written (evaluate_interactively ascii_builtins
                  [sample (ascii ''abc123''), sample (ascii ''def456'')] (Some stored)
                  [ascii '' 1, 2,3,4,5 ''])
       = Some (stored @ [(ascii ''def456'', make_score [1, 2, 3, 4, 5])])
   \<and> map_of (stored @ [(ascii ''def456'', make_score [1, 2, 3, 4, 5])]) (ascii ''abc123'')
       = Some \<lparr>edge_cases = 3, error_handling = 2, idiomaticity = 4, documentation = 3,
               ship_it = 3, total = 15\<rparr>"
proof -
  have h: "map_of stored (ascii ''abc123'')
     = Some \<lparr>edge_cases = 3, error_handling = 2, idiomaticity = 4, documentation = 3,
             ship_it = 3, total = 15\<rparr>"
    by (simp add: stored_def)
  have w: "written (evaluate_interactively ascii_builtins
                  [sample (ascii ''abc123''), sample (ascii ''def456'')] (Some stored)
                  [ascii '' 1, 2,3,4,5 ''])
       = Some (stored @ [(ascii ''def456'', make_score [1, 2, 3, 4, 5])])"
    by (simp add: resumed_session)
  from C7_existing_scores_kept[OF h, of ascii_builtins
      "[sample (ascii ''abc123''), sample (ascii ''def456'')]" "[ascii '' 1, 2,3,4,5 '']"] h w
  show ?thesis by blast
qed

section \<open>The results analyzer: the effect size\<close>

text \<open>
  C8. The analysis never raises. When scores of the control condition exist, it reports
  one row for each of the other four conditions that has scores, and in every reported
  row the effect size is the mean total of the condition minus the mean total of the
  control condition, divided by the pooled standard deviation of the two groups. The
  pooled standard deviation is 1 whenever the sample standard deviation of either group
  is zero (and the root of the mean of the two squares otherwise), and the sample
  standard deviation of a group of exactly one sample is 0. Python's floating point
  arithmetic is read as exact real arithmetic.
\<close>

theorem C8_effect_size:
  "(\<exists>report. analyze results scores key = Inr report)
   \<and> (\<forall>baseline rows. analyze results scores key = Inr (Some (baseline, rows)) \<longrightarrow>
        (\<forall>c\<in>set treatments. \<forall>grp. map_of (group_by_condition scores key) c = Some grp
            \<longrightarrow> (\<exists>row\<in>set rows. cond row = c))
        \<and> (\<forall>row\<in>set rows.
             \<exists>ctl grp cstd std.
               map_of (group_by_condition scores key) (ascii ''control'') = Some ctl
               \<and> cond row \<in> set treatments
               \<and> map_of (group_by_condition scores key) (cond row) = Some grp
               \<and> sample_std (map total ctl) = Inr cstd
               \<and> sample_std (map total grp) = Inr std
               \<and> (length ctl = 1 \<longrightarrow> cstd = 0)
               \<and> (length grp = 1 \<longrightarrow> std = 0)
               \<and> (cstd = 0 \<or> std = 0 \<longrightarrow> pooled_std cstd std = 1)
               \<and> (cstd \<noteq> 0 \<and> std \<noteq> 0 \<longrightarrow> pooled_std cstd std = sqrt ((cstd\<^sup>2 + std\<^sup>2) / 2))
               \<and> effect row
                   = (real_of_int (sum_list (map total grp)) / real (length grp)
                      - real_of_int (sum_list (map total ctl)) / real (length ctl))
                     / pooled_std cstd std))"
proof -
  let ?bc = "group_by_condition scores key"
  have tot: "\<exists>report. analyze results scores key = Inr report"
    using analyze_cases[of scores key results] by auto
  have rest: "(\<forall>c\<in>set treatments. \<forall>grp. map_of ?bc c = Some grp
            \<longrightarrow> (\<exists>row\<in>set rows. cond row = c))
        \<and> (\<forall>row\<in>set rows.
             \<exists>ctl grp cstd std.
               map_of ?bc (ascii ''control'') = Some ctl
               \<and> cond row \<in> set treatments
               \<and> map_of ?bc (cond row) = Some grp
               \<and> sample_std (map total ctl) = Inr cstd
               \<and> sample_std (map total grp) = Inr std
               \<and> (length ctl = 1 \<longrightarrow> cstd = 0)
               \<and> (length grp = 1 \<longrightarrow> std = 0)
               \<and> (cstd = 0 \<or> std = 0 \<longrightarrow> pooled_std cstd std = 1)
               \<and> (cstd \<noteq> 0 \<and> std \<noteq> 0 \<longrightarrow> pooled_std cstd std = sqrt ((cstd\<^sup>2 + std\<^sup>2) / 2))
               \<and> effect row
                   = (real_of_int (sum_list (map total grp)) / real (length grp)
                      - real_of_int (sum_list (map total ctl)) / real (length ctl))
                     / pooled_std cstd std)"
    if a: "analyze results scores key = Inr (Some (baseline, rows))" for baseline rows
  proof -
    from analyze_cases[of scores key results] a
    obtain ctl cm cs where ctl: "map_of ?bc (ascii ''control'') = Some ctl" "ctl \<noteq> []"
      and cm: "py_mean (map total ctl) = Inr cm"
      and cs: "sample_std (map total ctl) = Inr cs"
      and rows: "compare_all ?bc cm cs treatments = Inr rows"
      by auto
    have cmv: "cm = real_of_int (sum_list (map total ctl)) / real (length ctl)"
      using cm ctl(2) by (simp add: py_mean_def)
    have one: "length xs = 1 \<Longrightarrow> sample_std xs = Inr s \<Longrightarrow> s = 0" for xs s
      by (simp add: sample_std_def)
    have cover: "\<forall>c\<in>set treatments. \<forall>grp. map_of ?bc c = Some grp
            \<longrightarrow> (\<exists>row\<in>set rows. cond row = c)"
      using compare_all_covers[OF rows] by blast
    have each: "\<exists>ctl grp cstd std.
               map_of ?bc (ascii ''control'') = Some ctl
               \<and> cond row \<in> set treatments
               \<and> map_of ?bc (cond row) = Some grp
               \<and> sample_std (map total ctl) = Inr cstd
               \<and> sample_std (map total grp) = Inr std
               \<and> (length ctl = 1 \<longrightarrow> cstd = 0)
               \<and> (length grp = 1 \<longrightarrow> std = 0)
               \<and> (cstd = 0 \<or> std = 0 \<longrightarrow> pooled_std cstd std = 1)
               \<and> (cstd \<noteq> 0 \<and> std \<noteq> 0 \<longrightarrow> pooled_std cstd std = sqrt ((cstd\<^sup>2 + std\<^sup>2) / 2))
               \<and> effect row
                   = (real_of_int (sum_list (map total grp)) / real (length grp)
                      - real_of_int (sum_list (map total ctl)) / real (length ctl))
                     / pooled_std cstd std"
      if row: "row \<in> set rows" for row
    proof -
      from compare_all_rows[OF rows row] obtain c g where c: "c \<in> set treatments"
        and g: "map_of ?bc c = Some g"
        and r: "compare_row cm cs c (map total g) = Inr row" by blast
      from g have gne: "g \<noteq> []" by (rule groups_nonempty)
      obtain std where std: "sample_std (map total g) = Inr std"
        using sample_std_total by blast
      have m: "py_mean (map total g) = Inr (real_of_int (sum_list (map total g)) / real (length g))"
        using gne by (simp add: py_mean_def)
      have p: "pooled_std cs std \<noteq> 0" using pooled_std_pos[of cs std] by simp
      from r have cr: "cond row = c"
        and ef: "effect row
                 = (real_of_int (sum_list (map total g)) / real (length g) - cm) / pooled_std cs std"
        using m std p by (auto simp: compare_row_def)
      have l1: "length ctl = 1 \<longrightarrow> cs = 0" using one[of "map total ctl" cs] cs by simp
      have l2: "length g = 1 \<longrightarrow> std = 0" using one[of "map total g" std] std by simp
      have q1: "cs = 0 \<or> std = 0 \<longrightarrow> pooled_std cs std = 1" by (auto simp: pooled_std_def)
      have q2: "cs \<noteq> 0 \<and> std \<noteq> 0 \<longrightarrow> pooled_std cs std = sqrt ((cs\<^sup>2 + std\<^sup>2) / 2)"
        by (simp add: pooled_std_def)
      show ?thesis
        using ctl(1) c g cs std l1 l2 q1 q2 ef unfolding cr cmv by blast
    qed
    show ?thesis using cover each by blast
  qed
  show ?thesis using tot rest by blast
qed

text \<open>
  C8 on the concrete scores (control totals 10, 12, 14; common\_english totals 15, 16;
  one greek\_arete total 15): the analysis reports the two conditions; the group of one
  sample has deviation 0, so its pooled deviation is 1 and its effect size is the
  difference 3; the other effect size is 3.5 divided by the pooled deviation 1.5.
\<close>

theorem C8_effect_size_witness:
  "map cond (snd (the (projr (analyze [] demo_scores demo_key))))
     = [ascii ''common_english'', ascii ''greek_arete'']
   \<and> map effect (snd (the (projr (analyze [] demo_scores demo_key)))) = [7 / 3, 3]
   \<and> sample_std [15] = Inr 0
   \<and> pooled_std 2 0 = 1"
proof -
  let ?bc = "group_by_condition demo_scores demo_key"
  let ?ctl = "[make_score [2, 2, 2, 2, 2], make_score [3, 3, 2, 2, 2], make_score [3, 3, 3, 3, 2]]"
  let ?eng = "[make_score [3, 3, 3, 3, 3], make_score [4, 3, 3, 3, 3]]"
  let ?grk = "[make_score [3, 3, 3, 3, 3]]"
  obtain baseline r1 r2 where a: "analyze [] demo_scores demo_key = Inr (Some (baseline, [r1, r2]))"
    and c1: "cond r1 = ascii ''common_english''" and c2: "cond r2 = ascii ''greek_arete''"
    by (simp add: demo_analysis)
  have g: "map_of ?bc (ascii ''control'') = Some ?ctl"
    "map_of ?bc (ascii ''common_english'') = Some ?eng"
    "map_of ?bc (ascii ''greek_arete'') = Some ?grk"
    unfolding demo_groups by (simp_all add: ascii_def)
  from C8_effect_size[of "[]" demo_scores demo_key] a
  have rows: "\<forall>row\<in>set [r1, r2].
             \<exists>ctl grp cstd std.
               map_of ?bc (ascii ''control'') = Some ctl
               \<and> map_of ?bc (cond row) = Some grp
               \<and> sample_std (map total ctl) = Inr cstd
               \<and> sample_std (map total grp) = Inr std
               \<and> (length grp = 1 \<longrightarrow> std = 0)
               \<and> (cstd = 0 \<or> std = 0 \<longrightarrow> pooled_std cstd std = 1)
               \<and> effect row
                   = (real_of_int (sum_list (map total grp)) / real (length grp)
                      - real_of_int (sum_list (map total ctl)) / real (length ctl))
                     / pooled_std cstd std"
    by blast
  from rows obtain ctl1 grp1 cstd1 std1 where
      h1: "map_of ?bc (ascii ''control'') = Some ctl1" "map_of ?bc (cond r1) = Some grp1"
      and t1: "sample_std (map total ctl1) = Inr cstd1" "sample_std (map total grp1) = Inr std1"
      and u1: "effect r1
               = (real_of_int (sum_list (map total grp1)) / real (length grp1)
                  - real_of_int (sum_list (map total ctl1)) / real (length ctl1))
                 / pooled_std cstd1 std1"
    by (metis list.set_intros(1))
  have i1: "ctl1 = ?ctl" "grp1 = ?eng" using h1 g c1 by simp_all
  note s1 = t1[unfolded i1] and e1 = u1[unfolded i1]
  from rows obtain ctl2 grp2 cstd2 std2 where
      h2: "map_of ?bc (ascii ''control'') = Some ctl2" "map_of ?bc (cond r2) = Some grp2"
      and t2: "sample_std (map total ctl2) = Inr cstd2" "sample_std (map total grp2) = Inr std2"
      and y2: "length grp2 = 1 \<longrightarrow> std2 = 0"
      and p2: "cstd2 = 0 \<or> std2 = 0 \<longrightarrow> pooled_std cstd2 std2 = 1"
      and u2: "effect r2
               = (real_of_int (sum_list (map total grp2)) / real (length grp2)
                  - real_of_int (sum_list (map total ctl2)) / real (length ctl2))
                 / pooled_std cstd2 std2"
    by (metis list.set_intros(1) list.set_intros(2))
  have i2: "ctl2 = ?ctl" "grp2 = ?grk" using h2 g c2 by simp_all
  note z2 = y2[unfolded i2] and e2 = u2[unfolded i2]
  have v1: "cstd1 = 2" "std1 = sqrt (1 / 2)"
    using s1 unfolding demo_totals demo_std by simp_all
  have f1: "effect r1 = 7 / 3"
    unfolding e1 v1 demo_pooled demo_totals by simp
  from z2 have "std2 = 0" by simp
  with p2 have "pooled_std cstd2 std2 = 1" by simp
  then have f2: "effect r2 = 3"
    unfolding e2 demo_totals by simp
  have o: "sample_std [15] = Inr 0" "pooled_std 2 0 = 1"
    by (simp_all add: sample_std_def pooled_std_def)
  show ?thesis using a c1 c2 f1 f2 o by simp
qed

section \<open>The trial orchestrator: blind ids are not checked for uniqueness\<close>

text \<open>
  C9. In every run, the blind id of the \<open>i\<close>-th result is the first twelve characters
  of the hash of the clock text and the random number of the \<open>i\<close>-th trial, and nothing
  else enters it. The key file is a mapping keyed by blind id over the results in their
  order: its keys are the blind ids of the results, each once, and a later result
  overrides an earlier one, so for two results with the same blind id the key holds the
  condition of the last result with that blind id. If two results share a blind id, the
  key file has fewer entries than the results file. If the blind ids are pairwise distinct,
  the blind-eval file and the key file invert the redaction; there is a run with two
  equal blind ids in which they do not.
\<close>

theorem C9_blind_id_collisions:
  assumes "run_experiment w n mdl = Inr out"
  shows "(\<forall>i<length (results_file out).
            blind_id (results_file out ! i)
            = take 12 (sha256_hex w (clock_id (trial_env w i) @ random_id (trial_env w i))))
     \<and> map_of (key_file out)
         = map_of (rev (map (\<lambda>r. (blind_id r, condition r)) (results_file out)))
     \<and> distinct (map fst (key_file out))
     \<and> set (map fst (key_file out)) = set (map blind_id (results_file out))
     \<and> (\<forall>i j. i < j \<and> j < length (results_file out)
              \<and> blind_id (results_file out ! i) = blind_id (results_file out ! j)
              \<and> (\<forall>k. j < k \<and> k < length (results_file out) \<longrightarrow>
                     blind_id (results_file out ! k) \<noteq> blind_id (results_file out ! j))
              \<longrightarrow> map_of (key_file out) (blind_id (results_file out ! i))
                   = Some (condition (results_file out ! j)))
     \<and> (\<not> distinct (map blind_id (results_file out)) \<longrightarrow>
           length (key_file out) < length (results_file out))
     \<and> (distinct (map blind_id (results_file out)) \<longrightarrow>
           blind_key_inverse (results_file out) (blind_eval_file out) (key_file out))
     \<and> (\<exists>w' n' mdl' out'. run_experiment w' n' mdl' = Inr out'
           \<and> \<not> distinct (map blind_id (results_file out'))
           \<and> \<not> blind_key_inverse (results_file out') (blind_eval_file out') (key_file out'))"
proof -
  let ?R = "results_of w n mdl"
  note f = run_experiment_fields[OF assms]
  have p1: "\<forall>i<length ?R. blind_id (?R ! i)
            = take 12 (sha256_hex w (clock_id (trial_env w i) @ random_id (trial_env w i)))"
    by (simp add: length_results_of results_of_nth outcome_result_fields new_blind_id_def)
  have p2: "map_of (key_mapping ?R) = map_of (rev (map (\<lambda>r. (blind_id r, condition r)) ?R))"
    by (rule map_of_key_mapping)
  have p3: "distinct (map fst (key_mapping ?R))" by (rule distinct_key_mapping)
  have p4: "set (map fst (key_mapping ?R)) = set (map blind_id ?R)"
    using keys_key_mapping[of ?R] by simp
  have p5: "\<forall>i j. i < j \<and> j < length ?R \<and> blind_id (?R ! i) = blind_id (?R ! j)
              \<and> (\<forall>k. j < k \<and> k < length ?R \<longrightarrow> blind_id (?R ! k) \<noteq> blind_id (?R ! j))
              \<longrightarrow> map_of (key_mapping ?R) (blind_id (?R ! i)) = Some (condition (?R ! j))"
    using key_of_last_occurrence[of _ ?R] by simp
  have p6: "\<not> distinct (map blind_id ?R) \<longrightarrow> length (key_mapping ?R) < length ?R"
    using key_shorter by blast
  have p7: "distinct (map blind_id ?R) \<longrightarrow>
            blind_key_inverse ?R (shuffle (shuffle_blind w) (blind_of w n mdl)) (key_mapping ?R)"
    using inverse_of_distinct by blast
  let ?c = "demo_world sha256_table observed"
  obtain out' where o: "run_experiment ?c 1 [] = Inr out'"
    by (simp add: run_experiment_eq)
  note g = run_experiment_fields[OF o]
  have nd: "\<not> distinct (map blind_id (results_file out'))"
    unfolding g demo_results collision_ids by simp
  have ni: "\<not> blind_key_inverse (results_file out') (blind_eval_file out') (key_file out')"
    unfolding g by (rule collision_not_inverse)
  have p8: "\<exists>w' n' mdl' out'. run_experiment w' n' mdl' = Inr out'
           \<and> \<not> distinct (map blind_id (results_file out'))
           \<and> \<not> blind_key_inverse (results_file out') (blind_eval_file out') (key_file out')"
    using o nd ni by blast
  show ?thesis
    unfolding f using p1 p2 p3 p4 p5 p6 p7 p8 by blast
qed

text \<open>
  C9 in the two concrete environments. In the run with the colliding digests the first
  two results have the blind id 3cded723ab89, the key file maps it to the condition of
  the second of them and is shorter than the results file; in the run with distinct
  blind ids the two files invert the redaction.
\<close>

theorem C9_blind_id_collisions_witness:
  "blind_id (results_file (projr (run_experiment (demo_world sha256_table observed) 1 [])) ! 0)
     = ascii ''3cded723ab89''
   \<and> blind_id (results_file (projr (run_experiment (demo_world sha256_table observed) 1 [])) ! 1)
     = ascii ''3cded723ab89''
   \<and> condition (results_file (projr (run_experiment (demo_world sha256_table observed) 1 [])) ! 0)
     = ascii ''common_english''
   \<and> map_of (key_file (projr (run_experiment (demo_world sha256_table observed) 1 [])))
        (ascii ''3cded723ab89'') = Some (ascii ''greek_arete'')
   \<and> length (key_file (projr (run_experiment (demo_world sha256_table observed) 1 [])))
     < length (results_file (projr (run_experiment (demo_world sha256_table observed) 1 [])))
   \<and> blind_key_inverse
        (results_file (projr (run_experiment (demo_world (\<lambda>s. s) digits) 1 [])))
        (blind_eval_file (projr (run_experiment (demo_world (\<lambda>s. s) digits) 1 [])))
        (key_file (projr (run_experiment (demo_world (\<lambda>s. s) digits) 1 [])))"
proof -
  let ?c = "demo_world sha256_table observed"
  let ?d = "demo_world (\<lambda>s. s) digits"
  obtain oc where oc: "run_experiment ?c 1 [] = Inr oc" by (simp add: run_experiment_eq)
  obtain od where od: "run_experiment ?d 1 [] = Inr od" by (simp add: run_experiment_eq)
  have rc: "results_file oc = results_of ?c 1 []" using oc by (rule run_experiment_fields)
  have rd: "results_file od = results_of ?d 1 []" using od by (rule run_experiment_fields)
  note tc = C9_blind_id_collisions[OF oc]
  note td = C9_blind_id_collisions[OF od]
  have l: "length (results_file oc) = 5" unfolding rc demo_results by simp
  from tc have ids: "\<And>i. i < length (results_file oc) \<Longrightarrow> blind_id (results_file oc ! i)
            = take 12 (sha256_hex ?c (clock_id (trial_env ?c i) @ random_id (trial_env ?c i)))"
    by blast
  have env: "take 12 (sha256_hex ?c (clock_id (trial_env ?c i) @ random_id (trial_env ?c i)))
             = take 12 (sha256_table (fst (observed i) @ snd (observed i)))" for i
    by (simp add: demo_world_def)
  have i0: "blind_id (results_file oc ! 0) = ascii ''3cded723ab89''"
    using ids[of 0] l by (simp add: env collision_ids)
  have i1: "blind_id (results_file oc ! 1) = ascii ''3cded723ab89''"
    using ids[of 1] l collision_ids(2) unfolding env by simp
  have c0: "condition (results_file oc ! 0) = ascii ''common_english''"
    unfolding rc demo_results by simp
  have c1: "condition (results_file oc ! 1) = ascii ''greek_arete''"
    unfolding rc demo_results by simp
  have later: "\<forall>k. 1 < k \<and> k < length (results_file oc) \<longrightarrow>
                 blind_id (results_file oc ! k) \<noteq> blind_id (results_file oc ! 1)"
  proof (intro allI impI)
    fix k assume "1 < k \<and> k < length (results_file oc)"
    then have "k = 2 \<or> k = 3 \<or> k = 4" using l by auto
    then show "blind_id (results_file oc ! k) \<noteq> blind_id (results_file oc ! 1)"
      unfolding i1 unfolding rc demo_results collision_ids by (auto simp: ascii_def)
  qed
  from tc have "\<And>i j. i < j \<and> j < length (results_file oc)
              \<and> blind_id (results_file oc ! i) = blind_id (results_file oc ! j)
              \<and> (\<forall>k. j < k \<and> k < length (results_file oc) \<longrightarrow>
                     blind_id (results_file oc ! k) \<noteq> blind_id (results_file oc ! j))
              \<Longrightarrow> map_of (key_file oc) (blind_id (results_file oc ! i))
                   = Some (condition (results_file oc ! j))"
    by blast
  from this[of 0 1] later i0 i1 l c1
  have k: "map_of (key_file oc) (ascii ''3cded723ab89'') = Some (ascii ''greek_arete'')"
    by simp
  have nd: "\<not> distinct (map blind_id (results_file oc))"
    unfolding rc demo_results collision_ids by simp
  with tc have short: "length (key_file oc) < length (results_file oc)" by blast
  have d: "distinct (map blind_id (results_file od))"
    unfolding rd demo_results by (simp add: digits_def)
  with td have inv: "blind_key_inverse (results_file od) (blind_eval_file od) (key_file od)"
    by blast
  show ?thesis using oc od i0 i1 c0 k short inv by simp
qed

section \<open>The trial orchestrator: an empty batch\<close>

text \<open>
  C10. When the trial count is zero (or negative) or no selected problem is loaded, the
  results are empty: the three files are written (each empty), the two printed tables
  guard the empty denominator and report the rate 0 in every row, and the \<open>return\<close>
  statement divides by the length of the empty results and raises \<open>ZeroDivisionError\<close>
  instead of returning a summary.
\<close>

theorem C10_empty_batch_division_by_zero:
  assumes "n \<le> 0 \<or> problems_of w = []"
  shows "\<exists>out. run_experiment w n mdl = Inr out
     \<and> results_file out = [] \<and> blind_eval_file out = [] \<and> key_file out = []
     \<and> by_condition_table out = map (\<lambda>c. (name c, 0, 0, 0)) CONDITIONS
     \<and> by_problem_table out = map (\<lambda>pid. (pid, 0, 0, 0)) (map fst (problems_of w))
     \<and> rate k 0 = 0
     \<and> returned out = Inl (Exception ZeroDivisionError (ascii ''division by zero''))"
proof -
  have t: "trials_of w n = []" using assms by (rule trials_of_empty)
  have r: "results_of w n mdl = []" using length_results_of[of w n mdl] t by simp
  have b: "blind_of w n mdl = []" using length_blind_of[of w n mdl] t by simp
  show ?thesis
    by (simp add: run_experiment_eq r b shuffle_def key_mapping_def pass_row_def
        count_passed_def rate_def summarize_def)
qed

text \<open>
  C10 in the concrete environment: with a trial count of zero, and with an empty data
  set, the run ends with \<open>ZeroDivisionError\<close> after it has written empty files.
\<close>

theorem C10_empty_batch_division_by_zero_witness:
  "(0::int) \<le> 0
   \<and> problems_of (demo_world (\<lambda>s. s) digits\<lparr>dataset := []\<rparr>) = []
   \<and> returned (projr (run_experiment (demo_world (\<lambda>s. s) digits) 0 []))
       = Inl (Exception ZeroDivisionError (ascii ''division by zero''))
   \<and> results_file (projr (run_experiment (demo_world (\<lambda>s. s) digits) 0 [])) = []
   \<and> by_problem_table (projr (run_experiment (demo_world (\<lambda>s. s) digits) 0 []))
       = [(ascii ''HumanEval/2'', 0, 0, 0)]
   \<and> returned (projr (run_experiment (demo_world (\<lambda>s. s) digits\<lparr>dataset := []\<rparr>) 5 []))
       = Inl (Exception ZeroDivisionError (ascii ''division by zero''))
   \<and> key_file (projr (run_experiment (demo_world (\<lambda>s. s) digits\<lparr>dataset := []\<rparr>) 5 [])) = []"
proof -
  have e: "problems_of (demo_world (\<lambda>s. s) digits\<lparr>dataset := []\<rparr>) = []"
    by (simp add: problems_of_def load_humaneval_problems_def)
  have h1: "(0::int) \<le> 0 \<or> problems_of (demo_world (\<lambda>s. s) digits) = []" by simp
  have h2: "(5::int) \<le> 0 \<or> problems_of (demo_world (\<lambda>s. s) digits\<lparr>dataset := []\<rparr>) = []"
    using e by simp
  from C10_empty_batch_division_by_zero[OF h1, of "[]" 0]
  obtain out1 where o1: "run_experiment (demo_world (\<lambda>s. s) digits) 0 [] = Inr out1"
    "results_file out1 = []"
    "by_problem_table out1
     = map (\<lambda>pid. (pid, 0, 0, 0)) (map fst (problems_of (demo_world (\<lambda>s. s) digits)))"
    "returned out1 = Inl (Exception ZeroDivisionError (ascii ''division by zero''))"
    by blast
  from C10_empty_batch_division_by_zero[OF h2, of "[]" 0]
  obtain out2 where o2: "run_experiment (demo_world (\<lambda>s. s) digits\<lparr>dataset := []\<rparr>) 5 [] = Inr out2"
    "key_file out2 = []"
    "returned out2 = Inl (Exception ZeroDivisionError (ascii ''division by zero''))"
    by blast
  show ?thesis using e o1 o2 by (simp add: demo_problems)
qed

end
